theory Spec2Isabelle
  imports Main "HOL-Library.Word"
begin

unbundle bit_operations_syntax

section \<open>The resolver's flag word\<close>

text \<open>
  \<^verbatim>\<open>dnsmasq_interface.c\<close> takes the resolver's flags as an \<^verbatim>\<open>unsigned int\<close>
  (32 bits), \<^verbatim>\<open>FTL_reply\<close> as an \<^verbatim>\<open>unsigned short\<close> (16 bits).
\<close>

type_synonym flags_t = "32 word"

text \<open>
  The table of flag names, as line 20 of the source has it. \<^verbatim>\<open>print_flags\<close> prints
  \<^verbatim>\<open>flagnames[i]\<close> for bit \<open>i\<close>, so the table gives the position of every flag.
\<close>

definition flagnames :: "string list" where
  "flagnames =
    [''F_IMMORTAL '', ''F_NAMEP '', ''F_REVERSE '', ''F_FORWARD '', ''F_DHCP '', ''F_NEG '',
     ''F_HOSTS '', ''F_IPV4 '', ''F_IPV6 '', ''F_BIGNAME '', ''F_NXDOMAIN '', ''F_CNAME '',
     ''F_DNSKEY '', ''F_CONFIG '', ''F_DS '', ''F_DNSSECOK '', ''F_UPSTREAM '', ''F_RRNAME '',
     ''F_SERVER '', ''F_QUERY '', ''F_NOERR '', ''F_AUTH '', ''F_DNSSEC '', ''F_KEYTAG '',
     ''F_SECSTAT '', ''F_NO_RR '', ''F_IPSET '', ''F_NOEXTRA '']"

text \<open>
  The flag macros of \<^verbatim>\<open>dnsmasq/dnsmasq.h\<close> (the header is not among the sources):
  each is the bit whose name \<open>flagnames\<close> lists at that position.
\<close>

definition F_IMMORTAL :: flags_t where "F_IMMORTAL = push_bit 0 1"
definition F_NAMEP :: flags_t where "F_NAMEP = push_bit 1 1"
definition F_FORWARD :: flags_t where "F_FORWARD = push_bit 3 1"
definition F_DHCP :: flags_t where "F_DHCP = push_bit 4 1"
definition F_NEG :: flags_t where "F_NEG = push_bit 5 1"
definition F_HOSTS :: flags_t where "F_HOSTS = push_bit 6 1"
definition F_IPV4 :: flags_t where "F_IPV4 = push_bit 7 1"
definition F_NXDOMAIN :: flags_t where "F_NXDOMAIN = push_bit 10 1"
definition F_CNAME :: flags_t where "F_CNAME = push_bit 11 1"
definition F_CONFIG :: flags_t where "F_CONFIG = push_bit 13 1"

text \<open>A C condition \<^verbatim>\<open>flags & F\<close>: true when the conjunction is not zero.\<close>

definition flag_set :: "flags_t \<Rightarrow> flags_t \<Rightarrow> bool" where
  "flag_set flags f = (flags AND f \<noteq> 0)"

section \<open>Faults\<close>

text \<open>
  What stops a handler from returning normally: the lock is held by another thread
  (\<^verbatim>\<open>enable_thread_lock\<close> does not return while it is), a read of \<open>flagnames\<close>
  beyond its 28 rows, a \<^verbatim>\<open>strcat\<close> beyond the 256 bytes of \<^verbatim>\<open>flagstr\<close>.
\<close>

datatype fault = LockBlocked | FlagnamesOutOfBounds | FlagstrOverflow

section \<open>print_flags\<close>

text \<open>
  \<^verbatim>\<open>
  char *flagstr = calloc(256,sizeof(char));
  for(i = 0; i < sizeof(flags)*8; i++)
      if(flags & (1 << i))
          strcat(flagstr, flagnames[i]);
  logg("     Flags: %s", flagstr);
  \<close>
  The loop runs over the 32 bits of the word; \<^verbatim>\<open>1 << i\<close> is bit \<open>i\<close> of the word,
  also for \<open>i = 31\<close>. A name is appended when it fits the buffer with its closing
  zero byte. The result is the string handed to the log, or the fault of the first access
  that leaves its array: from there on the C program has no defined behaviour.
\<close>

function print_flags_loop :: "nat \<Rightarrow> flags_t \<Rightarrow> string \<Rightarrow> fault + string" where
  "print_flags_loop i flags flagstr =
     (if i < 32 then
        (if flags AND push_bit i 1 \<noteq> 0 then
           (if i < 28 then
              (if length flagstr + length (flagnames ! i) < 256
               then print_flags_loop (Suc i) flags (flagstr @ flagnames ! i)
               else Inl FlagstrOverflow)
            else Inl FlagnamesOutOfBounds)
         else print_flags_loop (Suc i) flags flagstr)
      else Inr flagstr)"
  by pat_completeness auto
termination
  by (relation "measure (\<lambda>(i, flags, flagstr). 32 - i)") auto

declare print_flags_loop.simps [simp del]

definition print_flags :: "flags_t \<Rightarrow> fault + string" where
  "print_flags flags = print_flags_loop 0 flags []"

text \<open>The number of characters in the first \<open>i\<close> names of the table.\<close>

definition flagnames_upto :: "nat \<Rightarrow> nat" where
  "flagnames_upto i = sum_list (map length (take i flagnames))"

section \<open>Strings and addresses\<close>

text \<open>
  \<^verbatim>\<open>strtolower\<close> of FTL applies C's \<^verbatim>\<open>tolower\<close> to every character; in the
  C locale that maps the 26 upper-case letters of ASCII and nothing else.
\<close>

definition tolower :: "char \<Rightarrow> char" where
  "tolower c =
     (case map_of (zip ''ABCDEFGHIJKLMNOPQRSTUVWXYZ'' ''abcdefghijklmnopqrstuvwxyz'') c of
        None \<Rightarrow> c
      | Some l \<Rightarrow> l)"

definition strtolower :: "string \<Rightarrow> string" where
  "strtolower str = map tolower str"

text \<open>\<^verbatim>\<open>strstr(haystack, needle) != NULL\<close>: the needle occurs in the haystack.\<close>

fun strstr :: "string \<Rightarrow> string \<Rightarrow> bool" where
  "strstr [] needle = (needle = [])"
| "strstr (c # cs) needle = (take (length needle) (c # cs) = needle \<or> strstr cs needle)"

text \<open>
  \<^verbatim>\<open>struct all_addr\<close> is the resolver's union of an IPv4 and an IPv6 address.
  \<^verbatim>\<open>inet_ntop\<close> prints it in the family the caller names; the two printed forms
  stand for the bytes.
\<close>

datatype address_family = AF_INET | AF_INET6

record all_addr =
  as_inet :: string
  as_inet6 :: string

definition inet_ntop :: "address_family \<Rightarrow> all_addr \<Rightarrow> string" where
  "inet_ntop af addr = (case af of AF_INET \<Rightarrow> as_inet addr | AF_INET6 \<Rightarrow> as_inet6 addr)"

section \<open>The data of FTL\<close>

text \<open>
  The enumerations of \<^verbatim>\<open>FTL.h\<close> (the header is not among the sources), by the
  names the source uses. \<open>QUERY_UNKNOWN\<close> is the value 0, which \<^verbatim>\<open>FTL_cache\<close>
  gives \<^verbatim>\<open>requesttype\<close> before it classifies.
\<close>

datatype query_type = TYPE_A | TYPE_AAAA | TYPE_ANY | TYPE_SRV | TYPE_SOA | TYPE_PTR | TYPE_TXT

datatype query_status =
  QUERY_UNKNOWN | QUERY_GRAVITY | QUERY_FORWARDED | QUERY_CACHE | QUERY_WILDCARD | QUERY_BLACKLIST

datatype reply_type = REPLY_UNKNOWN | REPLY_NODATA | REPLY_NXDOMAIN | REPLY_CNAME | REPLY_IP

datatype dnssec_status = DNSSEC_UNSPECIFIED | DNSSEC_SECURE | DNSSEC_INSECURE | DNSSEC_BOGUS

text \<open>
  One slot of \<^verbatim>\<open>queries[]\<close>. The fields \<^verbatim>\<open>type\<close>, \<^verbatim>\<open>id\<close> and
  \<^verbatim>\<open>private\<close> carry a suffix here. \<open>magic\<close> says that the slot holds the magic byte.
  Indices into the tables are C ints that are never negative: naturals here.
\<close>

record queriesData =
  magic :: bool
  timestamp :: int
  type_q :: query_type
  status :: query_status
  domainID :: nat
  clientID :: nat
  timeidx :: nat
  db :: bool
  id_q :: int
  complete :: bool
  private_q :: bool
  ttl :: nat
  forwardID :: "nat option"

text \<open>One slot of \<^verbatim>\<open>domains[]\<close>; \<open>reply\<close> is the array \<^verbatim>\<open>reply[2]\<close>.\<close>

record domainsData =
  domain :: string
  blockedcount :: int
  wildcard :: bool
  IPv4 :: "string option"
  IPv6 :: "string option"
  dnssec :: dnssec_status
  reply :: "nat \<Rightarrow> reply_type"

text \<open>One slot of \<^verbatim>\<open>overTime[]\<close>, a time bucket; the fields carry the prefix \<open>oT\<close>.\<close>

record overTimeData =
  oT_timestamp :: int
  oT_total :: int
  oT_blocked :: int
  oT_cached :: int
  oT_querytypedata :: "query_type \<Rightarrow> int"
  oT_clientdata :: "nat \<Rightarrow> int"

text \<open>
  The shared state: the lock, the fields of the global \<^verbatim>\<open>counters\<close> (prefix
  \<open>counters\<close>) and the global tables. A table is a function from the slot index:
  \<^verbatim>\<open>memory_check\<close> grows the backing array before a slot is written, so every slot
  exists. The sizes of the tables start at 0 and are only incremented: naturals. The
  other counters are C ints, incremented and decremented: integers, taken without a
  bound (a table of queries holds far fewer than \<open>2^31\<close> records).
\<close>

record FTL_state =
  thread_lock :: bool
  counters_queries :: nat
  counters_unknown :: int
  counters_cached :: int
  counters_blocked :: int
  counters_wildcardblocked :: int
  counters_forwardedqueries :: int
  counters_gravity :: int
  counters_querytype :: "query_type \<Rightarrow> int"
  counters_reply_NXDOMAIN :: int
  counters_reply_NODATA :: int
  counters_reply_CNAME :: int
  counters_reply_IP :: int
  counters_domains :: nat
  counters_clients :: nat
  counters_forwarded :: nat
  counters_overTime :: nat
  queries :: "nat \<Rightarrow> queriesData"
  domains :: "nat \<Rightarrow> domainsData"
  clients :: "nat \<Rightarrow> string"
  forwarded :: "nat \<Rightarrow> string"
  overTime :: "nat \<Rightarrow> overTimeData"

text \<open>
  What a handler reads from outside the shared state during one call: the debug switch,
  the configuration (\<^verbatim>\<open>config.analyze_AAAA\<close>, and \<^verbatim>\<open>config.privacylevel\<close> as
  \<^verbatim>\<open>get_privacy_level\<close> has just read it), the clock (the two results of
  \<^verbatim>\<open>gettimestamp\<close>) and the status detector \<^verbatim>\<open>detectStatus\<close>.
\<close>

record environment =
  debug :: bool
  analyze_AAAA :: bool
  privacylevel :: int
  querytimestamp :: int
  overTimetimestamp :: int
  detectStatus :: "string \<Rightarrow> query_status"

text \<open>
  Modelled from the spec: the privacy thresholds of \<^verbatim>\<open>FTL.h\<close>, which is not among
  the sources. Section 4.3 has two thresholds, "one redacts domain, a stricter one also
  redacts client"; the source names a third, the maximum.
\<close>

definition PRIVACY_HIDE_DOMAINS :: int where "PRIVACY_HIDE_DOMAINS = 1"
definition PRIVACY_HIDE_DOMAINS_CLIENTS :: int where "PRIVACY_HIDE_DOMAINS_CLIENTS = 2"
definition PRIVACY_MAXIMUM :: int where "PRIVACY_MAXIMUM = 3"

text \<open>
  The resolver's validation codes of \<^verbatim>\<open>dnsmasq.h\<close> (not among the sources);
  \<^verbatim>\<open>FTL_dnssec\<close> only compares its argument with these two.
\<close>

definition STAT_SECURE :: int where "STAT_SECURE = 1"
definition STAT_INSECURE :: int where "STAT_INSECURE = 2"

section \<open>The collaborators that are not among the sources\<close>

text \<open>
  Modelled from the spec: \<^verbatim>\<open>enable_thread_lock\<close> and \<^verbatim>\<open>disable_thread_lock\<close>
  are missing. Section 5: "one coarse-grained mutual-exclusion lock guards the entire
  state". Taking the lock returns only when no other thread holds it; a call that finds
  it held does not return in that state.
\<close>

definition enable_thread_lock :: "FTL_state \<Rightarrow> fault + FTL_state" where
  "enable_thread_lock s = (if thread_lock s then Inl LockBlocked else Inr (s\<lparr>thread_lock := True\<rparr>))"

definition disable_thread_lock :: "FTL_state \<Rightarrow> FTL_state" where
  "disable_thread_lock s = s\<lparr>thread_lock := False\<rparr>"

text \<open>The first index below \<open>n\<close> that satisfies \<open>P\<close>, scanning upwards from \<open>i\<close>.\<close>

function first_index :: "(nat \<Rightarrow> bool) \<Rightarrow> nat \<Rightarrow> nat \<Rightarrow> nat option" where
  "first_index P n i = (if i < n then (if P i then Some i else first_index P n (Suc i)) else None)"
  by pat_completeness auto
termination
  by (relation "measure (\<lambda>(P, n, i). n - i)") auto

declare first_index.simps [simp del]

text \<open>
  Modelled from the spec: \<^verbatim>\<open>findOverTimeID\<close> is missing. Section 4.2: buckets are
  fixed-width (the 10 minutes of the example: 600 seconds) and contiguous; "if timestamp
  falls beyond the last known bucket, new buckets are appended up to and including it";
  a timestamp before the earliest bucket gets the earliest bucket. With no bucket yet
  the first one starts at the timestamp. A new bucket has all its counters at 0.
\<close>

definition new_overTime :: "int \<Rightarrow> overTimeData" where
  "new_overTime ts =
     \<lparr>oT_timestamp = ts, oT_total = 0, oT_blocked = 0, oT_cached = 0,
      oT_querytypedata = (\<lambda>_. 0), oT_clientdata = (\<lambda>_. 0)\<rparr>"

fun append_overTime :: "nat \<Rightarrow> int \<Rightarrow> FTL_state \<Rightarrow> FTL_state" where
  "append_overTime 0 ts s = s"
| "append_overTime (Suc k) ts s =
     append_overTime k (ts + 600)
       (s\<lparr>overTime := (overTime s)(counters_overTime s := new_overTime ts),
          counters_overTime := counters_overTime s + 1\<rparr>)"

definition findOverTimeID :: "int \<Rightarrow> FTL_state \<Rightarrow> nat \<times> FTL_state" where
  "findOverTimeID ts s =
     (if counters_overTime s = 0 then (0, append_overTime 1 ts s)
      else
        let first = oT_timestamp (overTime s 0);
            last = oT_timestamp (overTime s (counters_overTime s - 1))
        in if ts \<le> first then (0, s)
           else
             let idx = nat ((ts - first) div 600)
             in if idx < counters_overTime s then (idx, s)
                else (idx, append_overTime (idx + 1 - counters_overTime s) (last + 600) s))"

text \<open>
  Modelled from the spec: \<^verbatim>\<open>findDomainID\<close>, \<^verbatim>\<open>findClientID\<close> and
  \<^verbatim>\<open>findForwardID\<close> are missing. Section 4.1: they map a string to its dense
  index, "creating new entries on first sight"; the forward lookup creates only when
  asked to and has no index otherwise. A new domain carries no answer, no reply kind
  and no blocked query yet.
\<close>

definition new_domain :: "string \<Rightarrow> domainsData" where
  "new_domain name =
     \<lparr>domain = name, blockedcount = 0, wildcard = False, IPv4 = None, IPv6 = None,
      dnssec = DNSSEC_UNSPECIFIED, reply = (\<lambda>_. REPLY_UNKNOWN)\<rparr>"

definition findDomainID :: "string \<Rightarrow> FTL_state \<Rightarrow> nat \<times> FTL_state" where
  "findDomainID name s =
     (case first_index (\<lambda>i. domain (domains s i) = name) (counters_domains s) 0 of
        Some i \<Rightarrow> (i, s)
      | None \<Rightarrow>
          (counters_domains s,
           s\<lparr>domains := (domains s)(counters_domains s := new_domain name),
             counters_domains := counters_domains s + 1\<rparr>))"

definition findClientID :: "string \<Rightarrow> FTL_state \<Rightarrow> nat \<times> FTL_state" where
  "findClientID client s =
     (case first_index (\<lambda>i. clients s i = client) (counters_clients s) 0 of
        Some i \<Rightarrow> (i, s)
      | None \<Rightarrow>
          (counters_clients s,
           s\<lparr>clients := (clients s)(counters_clients s := client),
             counters_clients := counters_clients s + 1\<rparr>))"

definition findForwardID :: "string \<Rightarrow> bool \<Rightarrow> FTL_state \<Rightarrow> nat option \<times> FTL_state" where
  "findForwardID forward create s =
     (case first_index (\<lambda>i. forwarded s i = forward) (counters_forwarded s) 0 of
        Some i \<Rightarrow> (Some i, s)
      | None \<Rightarrow>
          if create
          then (Some (counters_forwarded s),
                s\<lparr>forwarded := (forwarded s)(counters_forwarded s := forward),
                  counters_forwarded := counters_forwarded s + 1\<rparr>)
          else (None, s))"

section \<open>The routines of dnsmasq\_interface.c\<close>

text \<open>
  Not in the model, because they leave the shared state as it is: \<^verbatim>\<open>logg\<close> (only
  the string that \<open>print_flags\<close> builds for it is), \<^verbatim>\<open>memory_check\<close> and
  \<^verbatim>\<open>validate_access\<close> (every slot of a table exists here), \<^verbatim>\<open>strdup\<close> and
  \<^verbatim>\<open>free\<close>.
\<close>

text \<open>
  The search every handler but \<^verbatim>\<open>FTL_new_query\<close> makes:
  \<^verbatim>\<open>
  for(i=0; i<counters.queries; i++)
      if(queries[i].id == id) { ...; found = true; break; }
  \<close>
  The scan goes upwards from slot 0 and stops at the first match; what a handler does to
  the matching slot inside the loop is applied to the slot found.
\<close>

definition find_query :: "FTL_state \<Rightarrow> int \<Rightarrow> nat option" where
  "find_query s qid = first_index (\<lambda>i. id_q (queries s i) = qid) (counters_queries s) 0"

subsection \<open>save\_reply\_type (lines 642 to 676) and storeIP (lines 555 to 592)\<close>

definition save_reply_type :: "flags_t \<Rightarrow> nat \<Rightarrow> FTL_state \<Rightarrow> FTL_state" where
  "save_reply_type flags queryID s =
     (let dID = domainID (queries s queryID);
          replyID = (if type_q (queries s queryID) = TYPE_A then 0 else 1)
      in if flag_set flags F_NEG then
           (if flag_set flags F_NXDOMAIN then
              s\<lparr>domains := (domains s)(dID := (domains s dID)
                    \<lparr>reply := (reply (domains s dID))(replyID := REPLY_NXDOMAIN)\<rparr>),
                counters_reply_NXDOMAIN := counters_reply_NXDOMAIN s + 1\<rparr>
            else
              s\<lparr>domains := (domains s)(dID := (domains s dID)
                    \<lparr>reply := (reply (domains s dID))(replyID := REPLY_NODATA)\<rparr>),
                counters_reply_NODATA := counters_reply_NODATA s + 1\<rparr>)
         else if flag_set flags F_CNAME then
           s\<lparr>domains := (domains s)(dID := (domains s dID)
                 \<lparr>reply := (reply (domains s dID))(replyID := REPLY_CNAME)\<rparr>),
             counters_reply_CNAME := counters_reply_CNAME s + 1\<rparr>
         else
           s\<lparr>domains := (domains s)(dID := (domains s dID)
                 \<lparr>reply := (reply (domains s dID))(replyID := REPLY_IP)\<rparr>),
             counters_reply_IP := counters_reply_IP s + 1\<rparr>)"

definition storeIP :: "nat \<Rightarrow> string \<Rightarrow> FTL_state \<Rightarrow> FTL_state" where
  "storeIP i ip s =
     (let dID = domainID (queries s i)
      in if type_q (queries s i) = TYPE_A then
           (case IPv4 (domains s dID) of
              Some old \<Rightarrow>
                if old \<noteq> ip
                then s\<lparr>domains := (domains s)(dID := (domains s dID)\<lparr>IPv4 := Some ip\<rparr>)\<rparr>
                else s
            | None \<Rightarrow> s\<lparr>domains := (domains s)(dID := (domains s dID)\<lparr>IPv4 := Some ip\<rparr>)\<rparr>)
         else if type_q (queries s i) = TYPE_AAAA then
           (case IPv6 (domains s dID) of
              Some old \<Rightarrow>
                if old \<noteq> ip
                then s\<lparr>domains := (domains s)(dID := (domains s dID)\<lparr>IPv6 := Some ip\<rparr>)\<rparr>
                else s
            | None \<Rightarrow> s\<lparr>domains := (domains s)(dID := (domains s dID)\<lparr>IPv6 := Some ip\<rparr>)\<rparr>)
         else s)"

subsection \<open>FTL\_new\_query (lines 22 to 162)\<close>

text \<open>The ladder of \<^verbatim>\<open>strcmp\<close> at lines 81 to 103; \<open>None\<close> is its last branch.\<close>

definition querytype_of :: "string \<Rightarrow> query_type option" where
  "querytype_of types =
     (if types = ''query[A]'' then Some TYPE_A
      else if types = ''query[AAAA]'' then Some TYPE_AAAA
      else if types = ''query[ANY]'' then Some TYPE_ANY
      else if types = ''query[SRV]'' then Some TYPE_SRV
      else if types = ''query[SOA]'' then Some TYPE_SOA
      else if types = ''query[PTR]'' then Some TYPE_PTR
      else if types = ''query[TXT]'' then Some TYPE_TXT
      else None)"

text \<open>Lines 105 to 107: the counters of the query type, in the bucket and globally.\<close>

definition new_query_count_type :: "nat \<Rightarrow> query_type \<Rightarrow> FTL_state \<Rightarrow> FTL_state" where
  "new_query_count_type tidx querytype s =
     s\<lparr>overTime := (overTime s)(tidx := (overTime s tidx)
           \<lparr>oT_querytypedata := (oT_querytypedata (overTime s tidx))
              (querytype := oT_querytypedata (overTime s tidx) querytype + 1)\<rparr>),
       counters_querytype := (counters_querytype s)(querytype := counters_querytype s querytype + 1)\<rparr>"

text \<open>
  Lines 129 to 156: the twelve fields written to the slot \<^verbatim>\<open>queries[queryID]\<close>
  (\<^verbatim>\<open>forwardID\<close> is not among them), then the counters.
\<close>

definition new_query_save ::
  "environment \<Rightarrow> nat \<Rightarrow> query_type \<Rightarrow> nat \<Rightarrow> nat \<Rightarrow> nat \<Rightarrow> int \<Rightarrow> FTL_state \<Rightarrow> FTL_state" where
  "new_query_save env queryID querytype dID cID tidx qid s =
     s\<lparr>queries := (queries s)(queryID := (queries s queryID)
           \<lparr>magic := True, timestamp := querytimestamp env, type_q := querytype,
            status := QUERY_UNKNOWN, domainID := dID, clientID := cID, timeidx := tidx,
            db := False, id_q := qid, complete := False,
            private_q := (privacylevel env = PRIVACY_MAXIMUM), ttl := 0\<rparr>),
       counters_queries := counters_queries s + 1,
       counters_unknown := counters_unknown s + 1,
       overTime := (overTime s)(tidx := (overTime s tidx)
           \<lparr>oT_total := oT_total (overTime s tidx) + 1,
            oT_clientdata := (oT_clientdata (overTime s tidx))
              (cID := oT_clientdata (overTime s tidx) cID + 1)\<rparr>)\<rparr>"

definition FTL_new_query ::
  "environment \<Rightarrow> flags_t \<Rightarrow> string \<Rightarrow> all_addr \<Rightarrow> string \<Rightarrow> int \<Rightarrow> FTL_state
     \<Rightarrow> fault + FTL_state" where
  "FTL_new_query env flags name addr types qid s0 =
     (case enable_thread_lock s0 of
        Inl e \<Rightarrow> Inl e
      | Inr s1 \<Rightarrow>
          if \<not> analyze_AAAA env \<and> types = '' query[AAAA]'' then Inr (disable_thread_lock s1)
          else
            let queryID = counters_queries s1;
                (tidx, s2) = findOverTimeID (overTimetimestamp env) s1;
                lname = strtolower name
            in if lname = ''pi.hole'' then Inr (disable_thread_lock s2)
               else
                 let dname = (if privacylevel env \<ge> PRIVACY_HIDE_DOMAINS then ''hidden'' else lname);
                     dest = inet_ntop (if flag_set flags F_IPV4 then AF_INET else AF_INET6) addr;
                     client = (if privacylevel env \<ge> PRIVACY_HIDE_DOMAINS_CLIENTS
                               then ''0.0.0.0'' else strtolower dest)
                 in case querytype_of types of
                      None \<Rightarrow> Inr (disable_thread_lock s2)
                    | Some querytype \<Rightarrow>
                        let s3 = new_query_count_type tidx querytype s2
                        in if querytype \<noteq> TYPE_A \<and> querytype \<noteq> TYPE_AAAA
                           then Inr (disable_thread_lock s3)
                           else
                             let (dID, s4) = findDomainID dname s3;
                                 (cID, s5) = findClientID client s4
                             in Inr (disable_thread_lock
                                  (new_query_save env queryID querytype dID cID tidx qid s5)))"

subsection \<open>FTL\_forwarded (lines 164 to 239)\<close>

text \<open>
  Lines 186 to 199, what the loop does to the matching slot: the accounting of a cached
  answer is reversed, then the status is set.
\<close>

definition forwarded_match :: "nat \<Rightarrow> FTL_state \<Rightarrow> FTL_state" where
  "forwarded_match i s =
     (let s' =
        (if status (queries s i) = QUERY_CACHE then
           s\<lparr>counters_cached := counters_cached s - 1,
             overTime := (overTime s)(timeidx (queries s i) := (overTime s (timeidx (queries s i)))
               \<lparr>oT_cached := oT_cached (overTime s (timeidx (queries s i))) - 1\<rparr>),
             counters_unknown := counters_unknown s + 1,
             queries := (queries s)(i := (queries s i)\<lparr>complete := False\<rparr>)\<rparr>
         else s)
      in s'\<lparr>queries := (queries s')(i := (queries s' i)\<lparr>status := QUERY_FORWARDED\<rparr>)\<rparr>)"

text \<open>Lines 226 to 234: the query is counted as forwarded.\<close>

definition forwarded_count :: "nat \<Rightarrow> FTL_state \<Rightarrow> FTL_state" where
  "forwarded_count i s =
     (if \<not> complete (queries s i) then
        s\<lparr>counters_unknown := counters_unknown s - 1,
          counters_forwardedqueries := counters_forwardedqueries s + 1,
          queries := (queries s)(i := (queries s i)\<lparr>complete := True\<rparr>)\<rparr>
      else s)"

definition FTL_forwarded ::
  "environment \<Rightarrow> flags_t \<Rightarrow> string \<Rightarrow> all_addr \<Rightarrow> int \<Rightarrow> FTL_state \<Rightarrow> fault + FTL_state" where
  "FTL_forwarded env flags name addr qid s0 =
     (case enable_thread_lock s0 of
        Inl e \<Rightarrow> Inl e
      | Inr s1 \<Rightarrow>
          let dest = inet_ntop (if flag_set flags F_IPV4 then AF_INET else AF_INET6) addr;
              forward = strtolower dest
          in case find_query s1 qid of
               None \<Rightarrow> Inr (disable_thread_lock s1)
             | Some i \<Rightarrow>
                 let s2 = forwarded_match i s1
                 in if complete (queries s2 i) then Inr (disable_thread_lock s2)
                    else
                      let (fID, s3) = findForwardID forward True s2;
                          s4 = s3\<lparr>queries := (queries s3)(i := (queries s3 i)\<lparr>forwardID := fID\<rparr>)\<rparr>
                      in Inr (disable_thread_lock (forwarded_count i s4)))"

subsection \<open>FTL\_dnsmasq\_reload (lines 241 to 247) and FTL\_read\_hosts (lines 249 to 260)\<close>

text \<open>
  \<^verbatim>\<open>
  void FTL_dnsmasq_reload(void)
  {
      counters.gravity = 0;
      readWildcardsList();
  }
  \<close>
  \<^verbatim>\<open>readWildcardsList\<close> re-reads the list of wildcard domains, which is outside this
  state (the status detector of the environment reads it).
\<close>

definition FTL_dnsmasq_reload :: "FTL_state \<Rightarrow> fault + FTL_state" where
  "FTL_dnsmasq_reload s = Inr (s\<lparr>counters_gravity := 0\<rparr>)"

definition FTL_read_hosts :: "string option \<Rightarrow> int \<Rightarrow> FTL_state \<Rightarrow> fault + FTL_state" where
  "FTL_read_hosts filename addr_count s0 =
     (case enable_thread_lock s0 of
        Inl e \<Rightarrow> Inl e
      | Inr s1 \<Rightarrow>
          let s2 =
            (if (case filename of
                   None \<Rightarrow> False
                 | Some f \<Rightarrow> strstr f ''/gravity.list'' \<or> strstr f ''/black.list'')
             then s1\<lparr>counters_gravity := counters_gravity s1 + addr_count\<rparr>
             else s1)
          in Inr (disable_thread_lock s2))"

subsection \<open>FTL\_reply (lines 262 to 421)\<close>

text \<open>
  Lines 313 to 364, for a query that is not complete yet: the counters of a reply from the
  local configuration, the reply type, the address and the TTL. \<open>dest\<close> is the printed
  address, empty when the resolver gave none.
\<close>

definition reply_config_count ::
  "environment \<Rightarrow> flags_t \<Rightarrow> string \<Rightarrow> string \<Rightarrow> nat \<Rightarrow> nat \<Rightarrow> FTL_state \<Rightarrow> FTL_state" where
  "reply_config_count env flags name dest ttl' i s1 =
     (let s2 = s1\<lparr>counters_unknown := counters_unknown s1 - 1\<rparr>;
          (tidx, s3) = findOverTimeID (overTimetimestamp env) s2;
          dID = domainID (queries s3 i);
          s4 =
            (if status (queries s3 i) = QUERY_WILDCARD then
               s3\<lparr>counters_wildcardblocked := counters_wildcardblocked s3 + 1,
                  overTime := (overTime s3)(tidx := (overTime s3 tidx)
                    \<lparr>oT_blocked := oT_blocked (overTime s3 tidx) + 1\<rparr>),
                  domains := (domains s3)(dID := (domains s3 dID)
                    \<lparr>blockedcount := blockedcount (domains s3 dID) + 1, wildcard := True\<rparr>)\<rparr>
             else if status (queries s3 i) = QUERY_CACHE then
               s3\<lparr>counters_cached := counters_cached s3 + 1,
                  overTime := (overTime s3)(tidx := (overTime s3 tidx)
                    \<lparr>oT_cached := oT_cached (overTime s3 tidx) + 1\<rparr>)\<rparr>
             else s3);
          s5 = save_reply_type flags i s4;
          s6 =
            (if \<not> flag_set flags F_NEG \<and> \<not> flag_set flags F_CNAME \<and> length dest > 2 \<and>
                domain (domains s5 dID) = name
             then storeIP i dest s5 else s5)
      in s6\<lparr>queries := (queries s6)(i := (queries s6 i)\<lparr>ttl := ttl', complete := True\<rparr>)\<rparr>)"

text \<open>Lines 394 to 413: a reply from upstream whose name is the domain of the query.\<close>

definition reply_forward_save ::
  "flags_t \<Rightarrow> string \<Rightarrow> string \<Rightarrow> nat \<Rightarrow> nat \<Rightarrow> FTL_state \<Rightarrow> FTL_state" where
  "reply_forward_save flags name dest ttl' i s1 =
     (let dID = domainID (queries s1 i)
      in if domain (domains s1 dID) = name then
           let s2 = save_reply_type flags i s1;
               s3 =
                 (if \<not> flag_set flags F_NEG \<and> \<not> flag_set flags F_CNAME \<and> length dest > 2
                  then storeIP i dest s2 else s2)
           in s3\<lparr>queries := (queries s3)(i := (queries s3 i)\<lparr>ttl := ttl'\<rparr>)\<rparr>
         else s1)"

text \<open>
  The flags of \<^verbatim>\<open>FTL_reply\<close> are an \<^verbatim>\<open>unsigned short\<close>: the 16 low bits of the
  resolver's word, widened again wherever they are used.
\<close>

definition FTL_reply ::
  "environment \<Rightarrow> 16 word \<Rightarrow> string \<Rightarrow> all_addr option \<Rightarrow> nat \<Rightarrow> int \<Rightarrow> FTL_state
     \<Rightarrow> fault + FTL_state" where
  "FTL_reply env sflags name addr ttl' qid s0 =
     (case enable_thread_lock s0 of
        Inl e \<Rightarrow> Inl e
      | Inr s1 \<Rightarrow>
          let flags = (ucast sflags :: flags_t);
              dest =
                (case addr of
                   None \<Rightarrow> []
                 | Some a \<Rightarrow> inet_ntop (if flag_set flags F_IPV4 then AF_INET else AF_INET6) a)
          in case (if debug env then print_flags flags else Inr []) of
               Inl e \<Rightarrow> Inl e
             | Inr _ \<Rightarrow>
                 if flag_set flags F_CONFIG then
                   (case find_query s1 qid of
                      None \<Rightarrow> Inr (disable_thread_lock s1)
                    | Some i \<Rightarrow>
                        let s2 = s1\<lparr>queries := (queries s1)(i := (queries s1 i)
                                   \<lparr>status := detectStatus env
                                      (domain (domains s1 (domainID (queries s1 i))))\<rparr>)\<rparr>;
                            s3 = (if \<not> complete (queries s2 i)
                                  then reply_config_count env flags name dest ttl' i s2 else s2)
                        in Inr (disable_thread_lock s3))
                 else if flag_set flags F_FORWARD then
                   (case find_query s1 qid of
                      None \<Rightarrow> Inr (disable_thread_lock s1)
                    | Some i \<Rightarrow>
                        Inr (disable_thread_lock (reply_forward_save flags name dest ttl' i s1)))
                 else
                   (case print_flags flags of
                      Inl e \<Rightarrow> Inl e
                    | Inr _ \<Rightarrow> Inr (disable_thread_lock s1)))"

subsection \<open>FTL\_cache (lines 423 to 553)\<close>

text \<open>
  Lines 457 to 476: the request type. The last branch, which prints the flags and leaves
  \<^verbatim>\<open>requesttype\<close> at 0, is written as the source has it.
\<close>

definition cache_requesttype :: "flags_t \<Rightarrow> string option \<Rightarrow> fault + query_status" where
  "cache_requesttype flags arg =
     (if flag_set flags F_HOSTS then
        (if (case arg of None \<Rightarrow> False | Some a \<Rightarrow> strstr a ''/gravity.list'')
         then Inr QUERY_GRAVITY
         else if (case arg of None \<Rightarrow> False | Some a \<Rightarrow> strstr a ''/black.list'')
         then Inr QUERY_BLACKLIST
         else Inr QUERY_CACHE)
      else if flag_set flags F_NAMEP \<and> flag_set flags F_DHCP then Inr QUERY_CACHE
      else if flag_set flags F_FORWARD then Inr QUERY_CACHE
      else (case print_flags flags of Inl e \<Rightarrow> Inl e | Inr _ \<Rightarrow> Inr QUERY_UNKNOWN))"

text \<open>Lines 501 to 545, for a query that is not complete yet.\<close>

definition cache_count ::
  "environment \<Rightarrow> flags_t \<Rightarrow> string \<Rightarrow> string \<Rightarrow> nat \<Rightarrow> query_status \<Rightarrow> nat \<Rightarrow> FTL_state
     \<Rightarrow> FTL_state" where
  "cache_count env flags name dest ttl' requesttype i s1 =
     (let dID = domainID (queries s1 i);
          s2 = s1\<lparr>counters_unknown := counters_unknown s1 - 1\<rparr>;
          (tidx, s3) = findOverTimeID (overTimetimestamp env) s2;
          s4 =
            (case requesttype of
               QUERY_GRAVITY \<Rightarrow>
                 s3\<lparr>counters_blocked := counters_blocked s3 + 1,
                    overTime := (overTime s3)(tidx := (overTime s3 tidx)
                      \<lparr>oT_blocked := oT_blocked (overTime s3 tidx) + 1\<rparr>),
                    domains := (domains s3)(dID := (domains s3 dID)
                      \<lparr>blockedcount := blockedcount (domains s3 dID) + 1\<rparr>)\<rparr>
             | QUERY_BLACKLIST \<Rightarrow>
                 s3\<lparr>counters_blocked := counters_blocked s3 + 1,
                    overTime := (overTime s3)(tidx := (overTime s3 tidx)
                      \<lparr>oT_blocked := oT_blocked (overTime s3 tidx) + 1\<rparr>),
                    domains := (domains s3)(dID := (domains s3 dID)
                      \<lparr>blockedcount := blockedcount (domains s3 dID) + 1\<rparr>)\<rparr>
             | QUERY_CACHE \<Rightarrow>
                 s3\<lparr>counters_cached := counters_cached s3 + 1,
                    overTime := (overTime s3)(tidx := (overTime s3 tidx)
                      \<lparr>oT_cached := oT_cached (overTime s3 tidx) + 1\<rparr>)\<rparr>
             | _ \<Rightarrow> s3);
          s5 = save_reply_type flags i s4;
          s6 =
            (if \<not> flag_set flags F_NEG \<and> \<not> flag_set flags F_CNAME \<and> length dest > 2 \<and>
                domain (domains s5 dID) = name
             then storeIP i dest s5 else s5)
      in s6\<lparr>queries := (queries s6)(i := (queries s6 i)\<lparr>ttl := ttl', complete := True\<rparr>)\<rparr>)"

definition FTL_cache ::
  "environment \<Rightarrow> flags_t \<Rightarrow> string \<Rightarrow> all_addr option \<Rightarrow> string option \<Rightarrow> nat \<Rightarrow> int
     \<Rightarrow> FTL_state \<Rightarrow> fault + FTL_state" where
  "FTL_cache env flags name addr arg ttl' qid s0 =
     (case enable_thread_lock s0 of
        Inl e \<Rightarrow> Inl e
      | Inr s1 \<Rightarrow>
          let dest =
                (case addr of
                   None \<Rightarrow> []
                 | Some a \<Rightarrow> inet_ntop (if flag_set flags F_IPV4 then AF_INET else AF_INET6) a)
          in if strtolower name = ''pi.hole'' then Inr (disable_thread_lock s1)
             else
               case (if debug env then print_flags flags else Inr []) of
                 Inl e \<Rightarrow> Inl e
               | Inr _ \<Rightarrow>
                   if (flag_set flags F_HOSTS \<and> flag_set flags F_IMMORTAL) \<or>
                      (flag_set flags F_NAMEP \<and> flag_set flags F_DHCP) \<or>
                      flag_set flags F_FORWARD
                   then
                     (case cache_requesttype flags arg of
                        Inl e \<Rightarrow> Inl e
                      | Inr requesttype \<Rightarrow>
                          (case find_query s1 qid of
                             None \<Rightarrow> Inr (disable_thread_lock s1)
                           | Some i \<Rightarrow>
                               let s2 = s1\<lparr>queries := (queries s1)(i := (queries s1 i)
                                          \<lparr>status := requesttype\<rparr>)\<rparr>;
                                   s3 = (if \<not> complete (queries s2 i)
                                         then cache_count env flags name dest ttl' requesttype i s2
                                         else s2)
                               in Inr (disable_thread_lock s3)))
                   else
                     (case print_flags flags of
                        Inl e \<Rightarrow> Inl e
                      | Inr _ \<Rightarrow> Inr (disable_thread_lock s1)))"

subsection \<open>FTL\_dnssec (lines 594 to 629)\<close>

definition FTL_dnssec :: "environment \<Rightarrow> int \<Rightarrow> int \<Rightarrow> FTL_state \<Rightarrow> fault + FTL_state" where
  "FTL_dnssec env stat qid s0 =
     (case enable_thread_lock s0 of
        Inl e \<Rightarrow> Inl e
      | Inr s1 \<Rightarrow>
          (case find_query s1 qid of
             None \<Rightarrow> Inr (disable_thread_lock s1)
           | Some i \<Rightarrow>
               let dID = domainID (queries s1 i);
                   v = (if stat = STAT_SECURE then DNSSEC_SECURE
                        else if stat = STAT_INSECURE then DNSSEC_INSECURE
                        else DNSSEC_BOGUS)
               in Inr (disable_thread_lock
                    (s1\<lparr>domains := (domains s1)(dID := (domains s1 dID)\<lparr>dnssec := v\<rparr>)\<rparr>))))"

section \<open>Sequences of events\<close>

text \<open>
  The state before the first event: the lock free, every counter 0, every table empty
  (its slots zeroed, a new domain or bucket being what the zeroed slot holds).
\<close>

definition zero_query :: queriesData where
  "zero_query =
     \<lparr>magic = False, timestamp = 0, type_q = TYPE_A, status = QUERY_UNKNOWN, domainID = 0,
      clientID = 0, timeidx = 0, db = False, id_q = 0, complete = False, private_q = False,
      ttl = 0, forwardID = None\<rparr>"

definition FTL_init :: FTL_state where
  "FTL_init =
     \<lparr>thread_lock = False, counters_queries = 0, counters_unknown = 0, counters_cached = 0,
      counters_blocked = 0, counters_wildcardblocked = 0, counters_forwardedqueries = 0,
      counters_gravity = 0, counters_querytype = (\<lambda>_. 0), counters_reply_NXDOMAIN = 0,
      counters_reply_NODATA = 0, counters_reply_CNAME = 0, counters_reply_IP = 0,
      counters_domains = 0, counters_clients = 0, counters_forwarded = 0, counters_overTime = 0,
      queries = (\<lambda>_. zero_query), domains = (\<lambda>_. new_domain []), clients = (\<lambda>_. []),
      forwarded = (\<lambda>_. []), overTime = (\<lambda>_. new_overTime 0)\<rparr>"

text \<open>One call of a handler by the resolver, with the arguments of the call.\<close>

datatype event =
  QueryObserved flags_t string all_addr string int
| Forwarded flags_t string all_addr int
| CacheAnswer flags_t string "all_addr option" "string option" nat int
| Reply "16 word" string "all_addr option" nat int
| DnssecResult int int

fun handle :: "environment \<Rightarrow> event \<Rightarrow> FTL_state \<Rightarrow> fault + FTL_state" where
  "handle env (QueryObserved flags name addr types qid) s = FTL_new_query env flags name addr types qid s"
| "handle env (Forwarded flags name addr qid) s = FTL_forwarded env flags name addr qid s"
| "handle env (CacheAnswer flags name addr arg ttl' qid) s = FTL_cache env flags name addr arg ttl' qid s"
| "handle env (Reply sflags name addr ttl' qid) s = FTL_reply env sflags name addr ttl' qid s"
| "handle env (DnssecResult stat qid) s = FTL_dnssec env stat qid s"

text \<open>
  A sequence of events, each with the environment of its call; it stops at the first
  handler that does not return.
\<close>

fun run :: "(environment \<times> event) list \<Rightarrow> FTL_state \<Rightarrow> fault + FTL_state" where
  "run [] s = Inr s"
| "run ((env, e) # es) s = (case handle env e s of Inl f \<Rightarrow> Inl f | Inr s' \<Rightarrow> run es s')"

text \<open>
  The resolver defines no flag above bit 27 (\<open>F_NOEXTRA\<close>). An event whose flags keep to
  that cannot make \<open>print_flags\<close> leave the table of names.
\<close>

fun event_flags_low :: "event \<Rightarrow> bool" where
  "event_flags_low (CacheAnswer flags name addr arg ttl' qid) = (drop_bit 28 flags = 0)"
| "event_flags_low _ = True"

text \<open>The number of query records with \<^verbatim>\<open>complete = true\<close>.\<close>

definition completed_count :: "FTL_state \<Rightarrow> nat" where
  "completed_count s = length (filter (\<lambda>i. complete (queries s i)) [0..<counters_queries s])"

section \<open>The reply classification in the words of the specification\<close>

text \<open>
  Section 4.4: "negative+NXDOMAIN \<rightarrow> NXDOMAIN; negative other \<rightarrow> NODATA; alias flag
  \<rightarrow> CNAME; else \<rightarrow> IP", for the query's type slot (A is slot 0, AAAA is slot 1). This
  definition follows the specification; \<open>save_reply_type\<close> above follows the source.
\<close>

definition reply_classification :: "flags_t \<Rightarrow> reply_type" where
  "reply_classification flags =
     (if flag_set flags F_NEG \<and> flag_set flags F_NXDOMAIN then REPLY_NXDOMAIN
      else if flag_set flags F_NEG then REPLY_NODATA
      else if flag_set flags F_CNAME then REPLY_CNAME
      else REPLY_IP)"

fun type_slot :: "query_type \<Rightarrow> nat" where
  "type_slot TYPE_A = 0"
| "type_slot _ = 1"

text \<open>The global counter of a reply kind; no counter is kept for \<open>REPLY_UNKNOWN\<close>.\<close>

fun counters_reply :: "FTL_state \<Rightarrow> reply_type \<Rightarrow> int" where
  "counters_reply s REPLY_NXDOMAIN = counters_reply_NXDOMAIN s"
| "counters_reply s REPLY_NODATA = counters_reply_NODATA s"
| "counters_reply s REPLY_CNAME = counters_reply_CNAME s"
| "counters_reply s REPLY_IP = counters_reply_IP s"
| "counters_reply s REPLY_UNKNOWN = 0"

section \<open>The invariant of the accounting\<close>

text \<open>
  Between two handlers the lock is free, the queries that are still unknown and the
  complete ones add up to all queries, and a query whose status is \<open>QUERY_CACHE\<close> is
  complete.
\<close>

definition state_ok :: "FTL_state \<Rightarrow> bool" where
  "state_ok s \<longleftrightarrow>
     \<not> thread_lock s \<and>
     counters_unknown s + int (completed_count s) = int (counters_queries s) \<and>
     (\<forall>i<counters_queries s. status (queries s i) = QUERY_CACHE \<longrightarrow> complete (queries s i))"

section \<open>Example inputs\<close>

definition example_env :: environment where
  "example_env =
     \<lparr>debug = True, analyze_AAAA = False, privacylevel = 0, querytimestamp = 1000,
      overTimetimestamp = 600, detectStatus = (\<lambda>_. QUERY_CACHE)\<rparr>"

definition example_client :: all_addr where
  "example_client = \<lparr>as_inet = ''192.168.0.2'', as_inet6 = ''::ffff:c0a8:2''\<rparr>"

definition example_upstream :: all_addr where
  "example_upstream = \<lparr>as_inet = ''8.8.8.8'', as_inet6 = ''::ffff:808:808''\<rparr>"

section \<open>print_flags: the accesses to flagnames\<close>

lemma flag_bit: "(flags AND 2 ^ i = 0) = (\<not> bit (flags :: flags_t) i)"
  using bit_iff_and_push_bit_not_eq_0 [of flags i] by simp

lemma flagnames_len: "length flagnames = 28" by (simp add: flagnames_def)

lemma sum_take_le: "sum_list (map f (take n xs)) \<le> (sum_list (map f xs) :: nat)"
proof -
  have "sum_list (map f xs) = sum_list (map f (take n xs)) + sum_list (map f (drop n xs))"
    by (metis append_take_drop_id map_append sum_list_append)
  then show ?thesis by simp
qed

lemma flagnames_total: "sum_list (map length flagnames) = 243"
  by (simp add: flagnames_def)

lemma flagnames_upto_le: "flagnames_upto i \<le> 243"
  unfolding flagnames_upto_def using sum_take_le [of length i flagnames] flagnames_total by simp

lemma flagnames_upto_Suc: "i < 28 \<Longrightarrow> flagnames_upto (Suc i) = flagnames_upto i + length (flagnames ! i)"
  by (simp add: flagnames_upto_def take_Suc_conv_app_nth flagnames_len)

lemma loop_ok:
  "(i < 28 \<Longrightarrow> length acc \<le> flagnames_upto i) \<Longrightarrow> (\<forall>j. i \<le> j \<and> j < 32 \<longrightarrow> bit flags j \<longrightarrow> j < 28) \<Longrightarrow>
   \<exists>s. print_flags_loop i flags acc = Inr s"
proof (induction i flags acc rule: print_flags_loop.induct)
  case (1 i flags flagstr)
  show ?case
  proof (cases "i < 32")
    case False
    then show ?thesis by (subst print_flags_loop.simps) simp
  next
    case True
    show ?thesis
    proof (cases "bit flags i")
      case False
      have len: "Suc i < 28 \<Longrightarrow> length flagstr \<le> flagnames_upto (Suc i)"
        using "1.prems"(1) by (simp add: flagnames_upto_Suc)
      have "\<exists>s. print_flags_loop (Suc i) flags flagstr = Inr s"
        using True False "1.prems"(2) len by (intro "1.IH"(2)) (simp_all add: flag_bit)
      then show ?thesis
        using True False by (subst print_flags_loop.simps) (simp add: flag_bit)
    next
      case b: True
      then have i28: "i < 28" using True "1.prems"(2) by simp
      have fits: "length flagstr + length (flagnames ! i) < 256"
        using "1.prems"(1) [OF i28] flagnames_upto_Suc [OF i28] flagnames_upto_le [of "Suc i"] by simp
      have len: "Suc i < 28 \<Longrightarrow> length (flagstr @ flagnames ! i) \<le> flagnames_upto (Suc i)"
        using "1.prems"(1) [OF i28] by (simp add: flagnames_upto_Suc i28)
      have "\<exists>s. print_flags_loop (Suc i) flags (flagstr @ flagnames ! i) = Inr s"
        using True b i28 fits "1.prems"(2) len by (intro "1.IH"(1)) (simp_all add: flag_bit)
      then show ?thesis
        using True b i28 fits by (subst print_flags_loop.simps) (simp add: flag_bit)
    qed
  qed
qed

lemma loop_oob:
  "(i < 28 \<Longrightarrow> length acc \<le> flagnames_upto i) \<Longrightarrow> (\<exists>j. i \<le> j \<and> 28 \<le> j \<and> j < 32 \<and> bit flags j) \<Longrightarrow>
   print_flags_loop i flags acc = Inl FlagnamesOutOfBounds"
proof (induction i flags acc rule: print_flags_loop.induct)
  case (1 i flags flagstr)
  from "1.prems"(2) obtain j where j: "i \<le> j" "28 \<le> j" "j < 32" "bit flags j" by blast
  then have True: "i < 32" by simp
  show ?case
  proof (cases "bit flags i")
    case False
    then have "i \<noteq> j" using j by auto
    then have ex: "\<exists>j. Suc i \<le> j \<and> 28 \<le> j \<and> j < 32 \<and> bit flags j"
      using j by (intro exI [of _ j]) simp
    have len: "Suc i < 28 \<Longrightarrow> length flagstr \<le> flagnames_upto (Suc i)"
      using "1.prems"(1) by (simp add: flagnames_upto_Suc)
    have "print_flags_loop (Suc i) flags flagstr = Inl FlagnamesOutOfBounds"
      using True False ex len by (intro "1.IH"(2)) (simp_all add: flag_bit)
    then show ?thesis
      using True False by (subst print_flags_loop.simps) (simp add: flag_bit)
  next
    case b: True
    show ?thesis
    proof (cases "i < 28")
      case False
      then show ?thesis using True b by (subst print_flags_loop.simps) (simp add: flag_bit)
    next
      case i28: True
      then have ex: "\<exists>j. Suc i \<le> j \<and> 28 \<le> j \<and> j < 32 \<and> bit flags j"
        using j by (intro exI [of _ j]) simp
      have fits: "length flagstr + length (flagnames ! i) < 256"
        using "1.prems"(1) [OF i28] flagnames_upto_Suc [OF i28] flagnames_upto_le [of "Suc i"] by simp
      have len: "Suc i < 28 \<Longrightarrow> length (flagstr @ flagnames ! i) \<le> flagnames_upto (Suc i)"
        using "1.prems"(1) [OF i28] by (simp add: flagnames_upto_Suc i28)
      have "print_flags_loop (Suc i) flags (flagstr @ flagnames ! i) = Inl FlagnamesOutOfBounds"
        using True b i28 fits ex len by (intro "1.IH"(1)) (simp_all add: flag_bit)
      then show ?thesis
        using True b i28 fits by (subst print_flags_loop.simps) (simp add: flag_bit)
    qed
  qed
qed


section \<open>Evaluation on concrete inputs\<close>

lemmas eval_defs =
  FTL_new_query_def FTL_forwarded_def FTL_cache_def FTL_reply_def FTL_dnssec_def
  FTL_dnsmasq_reload_def FTL_read_hosts_def
  enable_thread_lock_def disable_thread_lock_def findOverTimeID_def findDomainID_def
  findClientID_def findForwardID_def find_query_def first_index.simps
  new_query_save_def new_query_count_type_def forwarded_match_def forwarded_count_def
  cache_count_def cache_requesttype_def reply_config_count_def reply_forward_save_def
  save_reply_type_def storeIP_def querytype_of_def strtolower_def tolower_def inet_ntop_def
  flag_set_def F_IPV4_def F_NEG_def F_CNAME_def F_NXDOMAIN_def F_CONFIG_def F_FORWARD_def
  F_HOSTS_def F_IMMORTAL_def F_NAMEP_def F_DHCP_def
  PRIVACY_HIDE_DOMAINS_def PRIVACY_HIDE_DOMAINS_CLIENTS_def PRIVACY_MAXIMUM_def
  FTL_init_def zero_query_def new_domain_def new_overTime_def
  print_flags_def print_flags_loop.simps flagnames_def
  example_env_def example_client_def example_upstream_def Let_def


section \<open>The search and the collaborators: what they leave alone\<close>

lemma first_index_SomeD:
  "first_index P n i = Some k \<Longrightarrow> i \<le> k \<and> k < n \<and> P k \<and> (\<forall>j. i \<le> j \<and> j < k \<longrightarrow> \<not> P j)"
proof (induction P n i rule: first_index.induct)
  case (1 P n i)
  show ?case
  proof (cases "i < n \<and> \<not> P i")
    case True
    then have "first_index P n (Suc i) = Some k"
      using "1.prems" by (subst (asm) first_index.simps) simp
    then have "Suc i \<le> k \<and> k < n \<and> P k \<and> (\<forall>j. Suc i \<le> j \<and> j < k \<longrightarrow> \<not> P j)"
      using True by (intro "1.IH") simp_all
    then have rest: "k < n" "P k" "Suc i \<le> k" and no: "\<And>j. Suc i \<le> j \<Longrightarrow> j < k \<Longrightarrow> \<not> P j"
      by simp_all
    have "\<not> P j" if "i \<le> j" "j < k" for j
    proof (cases "j = i")
      case True
      then show ?thesis using \<open>i < n \<and> \<not> P i\<close> by simp
    next
      case False
      then show ?thesis using that no [of j] by simp
    qed
    then show ?thesis using rest by simp
  next
    case False
    then show ?thesis using "1.prems" by (subst (asm) first_index.simps) (auto split: if_splits)
  qed
qed

lemma first_index_NoneD:
  "first_index P n i = None \<Longrightarrow> i \<le> j \<Longrightarrow> j < n \<Longrightarrow> \<not> P j"
proof (induction P n i rule: first_index.induct)
  case (1 P n i)
  have in': "i < n" using "1.prems" by simp
  then have nP: "\<not> P i" and rec: "first_index P n (Suc i) = None"
    using "1.prems"(1) by (subst (asm) first_index.simps, simp split: if_splits)+
  show ?case
  proof (cases "j = i")
    case True then show ?thesis using nP by simp
  next
    case False
    then show ?thesis using "1.IH" [OF in' nP rec] "1.prems" by simp
  qed
qed

lemma first_index_NoneI:
  "(\<forall>j. i \<le> j \<and> j < n \<longrightarrow> \<not> P j) \<Longrightarrow> first_index P n i = None"
proof (induction P n i rule: first_index.induct)
  case (1 P n i)
  show ?case
  proof (cases "i < n")
    case True
    then have "\<not> P i" using "1.prems" by simp
    moreover have "first_index P n (Suc i) = None"
      using True \<open>\<not> P i\<close> "1.prems" by (intro "1.IH") simp_all
    ultimately show ?thesis using True by (subst first_index.simps) simp
  next
    case False
    then show ?thesis by (subst first_index.simps) simp
  qed
qed

lemma find_query_SomeD:
  "find_query s qid = Some i \<Longrightarrow>
     i < counters_queries s \<and> id_q (queries s i) = qid \<and> (\<forall>j<i. id_q (queries s j) \<noteq> qid)"
  unfolding find_query_def by (drule first_index_SomeD) simp

lemma find_query_NoneI:
  "(\<forall>j<counters_queries s. id_q (queries s j) \<noteq> qid) \<Longrightarrow> find_query s qid = None"
  unfolding find_query_def by (rule first_index_NoneI) simp

lemma find_query_cong:
  "queries s' = queries s \<Longrightarrow> counters_queries s' = counters_queries s \<Longrightarrow> find_query s' qid = find_query s qid"
  by (simp add: find_query_def)


lemma append_overTime_eq:
  "append_overTime k ts s =
     s\<lparr>overTime := (\<lambda>i. if counters_overTime s \<le> i \<and> i < counters_overTime s + k
                        then new_overTime (ts + 600 * int (i - counters_overTime s))
                        else overTime s i),
       counters_overTime := counters_overTime s + k\<rparr>"
proof (induction k arbitrary: ts s)
  case 0
  have "(\<lambda>i. if counters_overTime s \<le> i \<and> i < counters_overTime s + 0
                        then new_overTime (ts + 600 * int (i - counters_overTime s))
                        else overTime s i) = overTime s"
    by (auto simp: fun_eq_iff)
  then show ?case by simp
next
  case (Suc k)
  show ?case
    apply (simp only: append_overTime.simps Suc.IH)
    apply (rule FTL_state.equality)
    apply (simp_all cong: if_cong)
    apply (rule ext)
    subgoal for i
      apply (cases "i = counters_overTime s")
      apply (simp_all add: algebra_simps)
      done
    done
qed

lemma findOverTimeID_frame [simp]:
  "thread_lock (snd (findOverTimeID ts s)) = thread_lock s"
  "counters_queries (snd (findOverTimeID ts s)) = counters_queries s"
  "counters_unknown (snd (findOverTimeID ts s)) = counters_unknown s"
  "counters_cached (snd (findOverTimeID ts s)) = counters_cached s"
  "counters_blocked (snd (findOverTimeID ts s)) = counters_blocked s"
  "counters_wildcardblocked (snd (findOverTimeID ts s)) = counters_wildcardblocked s"
  "counters_forwardedqueries (snd (findOverTimeID ts s)) = counters_forwardedqueries s"
  "counters_gravity (snd (findOverTimeID ts s)) = counters_gravity s"
  "counters_querytype (snd (findOverTimeID ts s)) = counters_querytype s"
  "counters_reply_NXDOMAIN (snd (findOverTimeID ts s)) = counters_reply_NXDOMAIN s"
  "counters_reply_NODATA (snd (findOverTimeID ts s)) = counters_reply_NODATA s"
  "counters_reply_CNAME (snd (findOverTimeID ts s)) = counters_reply_CNAME s"
  "counters_reply_IP (snd (findOverTimeID ts s)) = counters_reply_IP s"
  "counters_domains (snd (findOverTimeID ts s)) = counters_domains s"
  "counters_clients (snd (findOverTimeID ts s)) = counters_clients s"
  "counters_forwarded (snd (findOverTimeID ts s)) = counters_forwarded s"
  "queries (snd (findOverTimeID ts s)) = queries s"
  "domains (snd (findOverTimeID ts s)) = domains s"
  "clients (snd (findOverTimeID ts s)) = clients s"
  "forwarded (snd (findOverTimeID ts s)) = forwarded s"
  by (simp_all add: findOverTimeID_def Let_def append_overTime_eq)

lemma findDomainID_frame [simp]:
  "thread_lock (snd (findDomainID name s)) = thread_lock s"
  "counters_queries (snd (findDomainID name s)) = counters_queries s"
  "counters_unknown (snd (findDomainID name s)) = counters_unknown s"
  "counters_cached (snd (findDomainID name s)) = counters_cached s"
  "counters_blocked (snd (findDomainID name s)) = counters_blocked s"
  "counters_wildcardblocked (snd (findDomainID name s)) = counters_wildcardblocked s"
  "counters_forwardedqueries (snd (findDomainID name s)) = counters_forwardedqueries s"
  "counters_gravity (snd (findDomainID name s)) = counters_gravity s"
  "counters_querytype (snd (findDomainID name s)) = counters_querytype s"
  "counters_reply_NXDOMAIN (snd (findDomainID name s)) = counters_reply_NXDOMAIN s"
  "counters_reply_NODATA (snd (findDomainID name s)) = counters_reply_NODATA s"
  "counters_reply_CNAME (snd (findDomainID name s)) = counters_reply_CNAME s"
  "counters_reply_IP (snd (findDomainID name s)) = counters_reply_IP s"
  "counters_clients (snd (findDomainID name s)) = counters_clients s"
  "counters_forwarded (snd (findDomainID name s)) = counters_forwarded s"
  "counters_overTime (snd (findDomainID name s)) = counters_overTime s"
  "queries (snd (findDomainID name s)) = queries s"
  "clients (snd (findDomainID name s)) = clients s"
  "forwarded (snd (findDomainID name s)) = forwarded s"
  "overTime (snd (findDomainID name s)) = overTime s"
  by (simp_all add: findDomainID_def split: option.splits)

lemma findClientID_frame [simp]:
  "thread_lock (snd (findClientID client s)) = thread_lock s"
  "counters_queries (snd (findClientID client s)) = counters_queries s"
  "counters_unknown (snd (findClientID client s)) = counters_unknown s"
  "counters_cached (snd (findClientID client s)) = counters_cached s"
  "counters_blocked (snd (findClientID client s)) = counters_blocked s"
  "counters_wildcardblocked (snd (findClientID client s)) = counters_wildcardblocked s"
  "counters_forwardedqueries (snd (findClientID client s)) = counters_forwardedqueries s"
  "counters_gravity (snd (findClientID client s)) = counters_gravity s"
  "counters_querytype (snd (findClientID client s)) = counters_querytype s"
  "counters_reply_NXDOMAIN (snd (findClientID client s)) = counters_reply_NXDOMAIN s"
  "counters_reply_NODATA (snd (findClientID client s)) = counters_reply_NODATA s"
  "counters_reply_CNAME (snd (findClientID client s)) = counters_reply_CNAME s"
  "counters_reply_IP (snd (findClientID client s)) = counters_reply_IP s"
  "counters_domains (snd (findClientID client s)) = counters_domains s"
  "counters_forwarded (snd (findClientID client s)) = counters_forwarded s"
  "counters_overTime (snd (findClientID client s)) = counters_overTime s"
  "queries (snd (findClientID client s)) = queries s"
  "domains (snd (findClientID client s)) = domains s"
  "forwarded (snd (findClientID client s)) = forwarded s"
  "overTime (snd (findClientID client s)) = overTime s"
  by (simp_all add: findClientID_def split: option.splits)

lemma findForwardID_frame [simp]:
  "thread_lock (snd (findForwardID forward create s)) = thread_lock s"
  "counters_queries (snd (findForwardID forward create s)) = counters_queries s"
  "counters_unknown (snd (findForwardID forward create s)) = counters_unknown s"
  "counters_cached (snd (findForwardID forward create s)) = counters_cached s"
  "counters_blocked (snd (findForwardID forward create s)) = counters_blocked s"
  "counters_wildcardblocked (snd (findForwardID forward create s)) = counters_wildcardblocked s"
  "counters_forwardedqueries (snd (findForwardID forward create s)) = counters_forwardedqueries s"
  "counters_gravity (snd (findForwardID forward create s)) = counters_gravity s"
  "counters_querytype (snd (findForwardID forward create s)) = counters_querytype s"
  "counters_reply_NXDOMAIN (snd (findForwardID forward create s)) = counters_reply_NXDOMAIN s"
  "counters_reply_NODATA (snd (findForwardID forward create s)) = counters_reply_NODATA s"
  "counters_reply_CNAME (snd (findForwardID forward create s)) = counters_reply_CNAME s"
  "counters_reply_IP (snd (findForwardID forward create s)) = counters_reply_IP s"
  "counters_domains (snd (findForwardID forward create s)) = counters_domains s"
  "counters_clients (snd (findForwardID forward create s)) = counters_clients s"
  "counters_overTime (snd (findForwardID forward create s)) = counters_overTime s"
  "queries (snd (findForwardID forward create s)) = queries s"
  "domains (snd (findForwardID forward create s)) = domains s"
  "clients (snd (findForwardID forward create s)) = clients s"
  "overTime (snd (findForwardID forward create s)) = overTime s"
  by (simp_all add: findForwardID_def split: option.splits)

lemma save_reply_type_frame [simp]:
  "thread_lock (save_reply_type flags queryID s) = thread_lock s"
  "counters_queries (save_reply_type flags queryID s) = counters_queries s"
  "counters_unknown (save_reply_type flags queryID s) = counters_unknown s"
  "counters_cached (save_reply_type flags queryID s) = counters_cached s"
  "counters_blocked (save_reply_type flags queryID s) = counters_blocked s"
  "counters_wildcardblocked (save_reply_type flags queryID s) = counters_wildcardblocked s"
  "counters_forwardedqueries (save_reply_type flags queryID s) = counters_forwardedqueries s"
  "counters_gravity (save_reply_type flags queryID s) = counters_gravity s"
  "counters_querytype (save_reply_type flags queryID s) = counters_querytype s"
  "counters_domains (save_reply_type flags queryID s) = counters_domains s"
  "counters_clients (save_reply_type flags queryID s) = counters_clients s"
  "counters_forwarded (save_reply_type flags queryID s) = counters_forwarded s"
  "counters_overTime (save_reply_type flags queryID s) = counters_overTime s"
  "queries (save_reply_type flags queryID s) = queries s"
  "clients (save_reply_type flags queryID s) = clients s"
  "forwarded (save_reply_type flags queryID s) = forwarded s"
  "overTime (save_reply_type flags queryID s) = overTime s"
  by (simp_all add: save_reply_type_def Let_def)

lemma storeIP_frame [simp]:
  "thread_lock (storeIP i ip s) = thread_lock s"
  "counters_queries (storeIP i ip s) = counters_queries s"
  "counters_unknown (storeIP i ip s) = counters_unknown s"
  "counters_cached (storeIP i ip s) = counters_cached s"
  "counters_blocked (storeIP i ip s) = counters_blocked s"
  "counters_wildcardblocked (storeIP i ip s) = counters_wildcardblocked s"
  "counters_forwardedqueries (storeIP i ip s) = counters_forwardedqueries s"
  "counters_gravity (storeIP i ip s) = counters_gravity s"
  "counters_querytype (storeIP i ip s) = counters_querytype s"
  "counters_reply_NXDOMAIN (storeIP i ip s) = counters_reply_NXDOMAIN s"
  "counters_reply_NODATA (storeIP i ip s) = counters_reply_NODATA s"
  "counters_reply_CNAME (storeIP i ip s) = counters_reply_CNAME s"
  "counters_reply_IP (storeIP i ip s) = counters_reply_IP s"
  "counters_domains (storeIP i ip s) = counters_domains s"
  "counters_clients (storeIP i ip s) = counters_clients s"
  "counters_forwarded (storeIP i ip s) = counters_forwarded s"
  "counters_overTime (storeIP i ip s) = counters_overTime s"
  "queries (storeIP i ip s) = queries s"
  "clients (storeIP i ip s) = clients s"
  "forwarded (storeIP i ip s) = forwarded s"
  "overTime (storeIP i ip s) = overTime s"
  by (simp_all add: storeIP_def Let_def split: option.splits)

lemma new_query_count_type_frame [simp]:
  "thread_lock (new_query_count_type tidx querytype s) = thread_lock s"
  "counters_queries (new_query_count_type tidx querytype s) = counters_queries s"
  "counters_unknown (new_query_count_type tidx querytype s) = counters_unknown s"
  "counters_cached (new_query_count_type tidx querytype s) = counters_cached s"
  "counters_blocked (new_query_count_type tidx querytype s) = counters_blocked s"
  "counters_wildcardblocked (new_query_count_type tidx querytype s) = counters_wildcardblocked s"
  "counters_forwardedqueries (new_query_count_type tidx querytype s) = counters_forwardedqueries s"
  "counters_gravity (new_query_count_type tidx querytype s) = counters_gravity s"
  "counters_reply_NXDOMAIN (new_query_count_type tidx querytype s) = counters_reply_NXDOMAIN s"
  "counters_reply_NODATA (new_query_count_type tidx querytype s) = counters_reply_NODATA s"
  "counters_reply_CNAME (new_query_count_type tidx querytype s) = counters_reply_CNAME s"
  "counters_reply_IP (new_query_count_type tidx querytype s) = counters_reply_IP s"
  "counters_domains (new_query_count_type tidx querytype s) = counters_domains s"
  "counters_clients (new_query_count_type tidx querytype s) = counters_clients s"
  "counters_forwarded (new_query_count_type tidx querytype s) = counters_forwarded s"
  "counters_overTime (new_query_count_type tidx querytype s) = counters_overTime s"
  "queries (new_query_count_type tidx querytype s) = queries s"
  "domains (new_query_count_type tidx querytype s) = domains s"
  "clients (new_query_count_type tidx querytype s) = clients s"
  "forwarded (new_query_count_type tidx querytype s) = forwarded s"
  by (simp_all add: new_query_count_type_def)

section \<open>The stages of the handlers: lock, counters of the invariant, query table\<close>

lemma cache_count_core [simp]:
  "thread_lock (cache_count env flags name dest t r i s) = thread_lock s"
  "counters_queries (cache_count env flags name dest t r i s) = counters_queries s"
  "counters_unknown (cache_count env flags name dest t r i s) = counters_unknown s - 1"
  "queries (cache_count env flags name dest t r i s) = (queries s)(i := (queries s i)\<lparr>ttl := t, complete := True\<rparr>)"
  by (simp_all add: cache_count_def Let_def case_prod_beta split: query_status.splits)

lemma reply_config_count_core [simp]:
  "thread_lock (reply_config_count env flags name dest t i s) = thread_lock s"
  "counters_queries (reply_config_count env flags name dest t i s) = counters_queries s"
  "counters_unknown (reply_config_count env flags name dest t i s) = counters_unknown s - 1"
  "queries (reply_config_count env flags name dest t i s) = (queries s)(i := (queries s i)\<lparr>ttl := t, complete := True\<rparr>)"
  by (simp_all add: reply_config_count_def Let_def case_prod_beta)

lemma reply_forward_save_core [simp]:
  "thread_lock (reply_forward_save flags name dest t i s) = thread_lock s"
  "counters_queries (reply_forward_save flags name dest t i s) = counters_queries s"
  "counters_unknown (reply_forward_save flags name dest t i s) = counters_unknown s"
  "queries (reply_forward_save flags name dest t i s) =
     (if domain (domains s (domainID (queries s i))) = name
      then (queries s)(i := (queries s i)\<lparr>ttl := t\<rparr>) else queries s)"
  by (simp_all add: reply_forward_save_def Let_def)

lemma new_query_save_core [simp]:
  "thread_lock (new_query_save env queryID querytype dID cID tidx qid s) = thread_lock s"
  "counters_queries (new_query_save env queryID querytype dID cID tidx qid s) = counters_queries s + 1"
  "counters_unknown (new_query_save env queryID querytype dID cID tidx qid s) = counters_unknown s + 1"
  "complete (queries (new_query_save env queryID querytype dID cID tidx qid s) j) =
     (if j = queryID then False else complete (queries s j))"
  "status (queries (new_query_save env queryID querytype dID cID tidx qid s) j) =
     (if j = queryID then QUERY_UNKNOWN else status (queries s j))"
  by (simp_all add: new_query_save_def)

lemma find_query_lock [simp]: "find_query (s\<lparr>thread_lock := b\<rparr>) qid = find_query s qid"
  by (simp add: find_query_def)

lemma forwarded_match_core [simp]:
  "thread_lock (forwarded_match i s) = thread_lock s"
  "counters_queries (forwarded_match i s) = counters_queries s"
  "counters_unknown (forwarded_match i s) =
     counters_unknown s + (if status (queries s i) = QUERY_CACHE then 1 else 0)"
  "queries (forwarded_match i s) =
     (queries s)(i := (queries s i)
        \<lparr>complete := (if status (queries s i) = QUERY_CACHE then False else complete (queries s i)),
         status := QUERY_FORWARDED\<rparr>)"
  by (simp_all add: forwarded_match_def Let_def)

lemma forwarded_count_core [simp]:
  "thread_lock (forwarded_count i s) = thread_lock s"
  "counters_queries (forwarded_count i s) = counters_queries s"
  "counters_unknown (forwarded_count i s) =
     counters_unknown s - (if complete (queries s i) then 0 else 1)"
  "queries (forwarded_count i s) = (queries s)(i := (queries s i)\<lparr>complete := True\<rparr>)"
  by (simp_all add: forwarded_count_def fun_eq_iff)

lemma disable_thread_lock_core [simp]:
  "thread_lock (disable_thread_lock s) = False"
  "counters_queries (disable_thread_lock s) = counters_queries s"
  "counters_unknown (disable_thread_lock s) = counters_unknown s"
  "queries (disable_thread_lock s) = queries s"
  by (simp_all add: disable_thread_lock_def)


section \<open>The invariant holds between handlers\<close>

lemma filter_count_change:
  assumes "\<And>j. j \<noteq> i \<Longrightarrow> c' j = c j"
  shows "int (length (filter c' [0..<n])) =
         int (length (filter c [0..<n])) + (if i < n then of_bool (c' i) - of_bool (c i) else 0)"
proof (induction n)
  case 0
  show ?case by simp
next
  case (Suc n)
  show ?case
  proof (cases "n = i")
    case True
    then show ?thesis using Suc by simp
  next
    case False
    then have "c' n = c n" using assms by simp
    then show ?thesis using Suc False by auto
  qed
qed

lemma completed_count_update:
  assumes "queries s' = (queries s)(i := q)" "counters_queries s' = counters_queries s"
    "i < counters_queries s"
  shows "int (completed_count s') =
         int (completed_count s) + of_bool (complete q) - of_bool (complete (queries s i))"
  unfolding completed_count_def
  using filter_count_change [of i "\<lambda>j. complete (queries s' j)" "\<lambda>j. complete (queries s j)" "counters_queries s"]
    assms by simp

lemma completed_count_new:
  assumes "queries s' = (queries s)(counters_queries s := q)" "counters_queries s' = counters_queries s + 1"
  shows "int (completed_count s') = int (completed_count s) + of_bool (complete q)"
  unfolding completed_count_def
  using filter_count_change [of "counters_queries s" "\<lambda>j. complete (queries s' j)" "\<lambda>j. complete (queries s j)" "counters_queries s"]
    assms by simp

lemma ok_same:
  assumes "state_ok s" "\<not> thread_lock s'" "counters_queries s' = counters_queries s"
    "counters_unknown s' = counters_unknown s" "queries s' = queries s"
  shows "state_ok s'"
  using assms by (simp add: state_ok_def completed_count_def)

lemma ok_update:
  assumes "state_ok s" "i < counters_queries s" "\<not> thread_lock s'"
    "counters_queries s' = counters_queries s" "queries s' = (queries s)(i := q)"
    "counters_unknown s' = counters_unknown s + of_bool (complete (queries s i)) - of_bool (complete q)"
    "status q = QUERY_CACHE \<longrightarrow> complete q"
  shows "state_ok s'"
  using assms completed_count_update [of s' s i q]
  by (simp add: state_ok_def)

lemma ok_new:
  assumes "state_ok s" "\<not> thread_lock s'"
    "counters_queries s' = counters_queries s + 1" "queries s' = (queries s)(counters_queries s := q)"
    "counters_unknown s' = counters_unknown s + 1" "\<not> complete q" "status q \<noteq> QUERY_CACHE"
  shows "state_ok s'"
  using assms completed_count_new [of s' s q]
  by (auto simp: state_ok_def less_Suc_eq)

lemma FTL_dnssec_ok:
  assumes ok: "state_ok s" and eq: "FTL_dnssec env stat qid s = Inr s'"
  shows "state_ok s'"
proof -
  have nl: "\<not> thread_lock s" using ok by (simp add: state_ok_def)
  show ?thesis
    using eq nl
    by (auto simp: FTL_dnssec_def enable_thread_lock_def Let_def
        split: option.splits intro!: ok_same [OF ok])
qed

lemma FTL_forwarded_ok:
  assumes ok: "state_ok s" and eq: "FTL_forwarded env flags name addr qid s = Inr s'"
  shows "state_ok s'"
proof -
  have nl: "\<not> thread_lock s" using ok by (simp add: state_ok_def)
  show ?thesis
  proof (cases "find_query s qid")
    case None
    then show ?thesis
      using eq nl
      by (auto simp: FTL_forwarded_def enable_thread_lock_def Let_def intro!: ok_same [OF ok])
  next
    case (Some i)
    then have i: "i < counters_queries s" by (simp add: find_query_SomeD)
    then have cache: "status (queries s i) = QUERY_CACHE \<Longrightarrow> complete (queries s i)"
      using ok by (simp add: state_ok_def)
    show ?thesis
      using eq nl Some cache
      by (intro ok_update [OF ok i, where q = "queries s' i"])
        (auto simp: FTL_forwarded_def enable_thread_lock_def Let_def case_prod_beta
          split: if_splits)
  qed
qed

lemma FTL_reply_ok:
  assumes ok: "state_ok s" and eq: "FTL_reply env sflags name addr t qid s = Inr s'"
  shows "state_ok s'"
proof -
  have nl: "\<not> thread_lock s" using ok by (simp add: state_ok_def)
  show ?thesis
  proof (cases "find_query s qid")
    case None
    then show ?thesis
      using eq nl
      by (auto simp: FTL_reply_def enable_thread_lock_def Let_def
          split: sum.splits if_splits intro!: ok_same [OF ok])
  next
    case (Some i)
    then have i: "i < counters_queries s" by (simp add: find_query_SomeD)
    then have cache: "status (queries s i) = QUERY_CACHE \<Longrightarrow> complete (queries s i)"
      using ok by (simp add: state_ok_def)
    show ?thesis
      using eq nl Some cache
      by (intro ok_update [OF ok i, where q = "queries s' i"])
        (auto simp: FTL_reply_def enable_thread_lock_def Let_def
          split: sum.splits if_splits)
  qed
qed

lemma FTL_cache_ok:
  assumes ok: "state_ok s" and eq: "FTL_cache env flags name addr arg t qid s = Inr s'"
  shows "state_ok s'"
proof -
  have nl: "\<not> thread_lock s" using ok by (simp add: state_ok_def)
  show ?thesis
  proof (cases "find_query s qid")
    case None
    then show ?thesis
      using eq nl
      by (auto simp: FTL_cache_def enable_thread_lock_def Let_def
          split: sum.splits if_splits intro!: ok_same [OF ok])
  next
    case (Some i)
    then have i: "i < counters_queries s" by (simp add: find_query_SomeD)
    then have cache: "status (queries s i) = QUERY_CACHE \<Longrightarrow> complete (queries s i)"
      using ok by (simp add: state_ok_def)
    show ?thesis
      using eq nl Some cache
      by (intro ok_update [OF ok i, where q = "queries s' i"])
        (auto simp: FTL_cache_def enable_thread_lock_def Let_def
          split: sum.splits if_splits)
  qed
qed

lemma FTL_new_query_ok:
  assumes ok: "state_ok s" and eq: "FTL_new_query env flags name addr types qid s = Inr s'"
  shows "state_ok s'"
proof -
  have nl: "\<not> thread_lock s" using ok by (simp add: state_ok_def)
  show ?thesis
  proof (cases "counters_queries s' = counters_queries s")
    case True
    then show ?thesis
      using eq nl
      by (intro ok_same [OF ok])
        (auto simp: FTL_new_query_def enable_thread_lock_def Let_def case_prod_beta
          new_query_save_def
          split: option.splits if_splits)
  next
    case False
    then show ?thesis
      using eq nl
      by (intro ok_new [OF ok, where q = "queries s' (counters_queries s)"])
        (auto simp: FTL_new_query_def enable_thread_lock_def Let_def case_prod_beta
          new_query_save_def
          split: option.splits if_splits)
  qed
qed

lemma handle_ok: "state_ok s \<Longrightarrow> handle env e s = Inr s' \<Longrightarrow> state_ok s'"
  by (cases e) (auto intro: FTL_new_query_ok FTL_forwarded_ok FTL_cache_ok FTL_reply_ok FTL_dnssec_ok)

lemma run_ok: "state_ok s \<Longrightarrow> run es s = Inr s' \<Longrightarrow> state_ok s'"
proof (induction es arbitrary: s)
  case Nil
  then show ?case by simp
next
  case (Cons a es)
  obtain env e where a: "a = (env, e)" by (cases a)
  show ?case
  proof (cases "handle env e s")
    case (Inl f)
    then show ?thesis using Cons.prems a by simp
  next
    case (Inr s1)
    then have "state_ok s1" using Cons.prems(1) handle_ok by blast
    moreover have "run es s1 = Inr s'" using Cons.prems(2) a Inr by simp
    ultimately show ?thesis by (rule Cons.IH)
  qed
qed

lemma init_ok: "state_ok FTL_init"
  by (simp add: state_ok_def FTL_init_def completed_count_def)


section \<open>Every handler returns, and releases the lock\<close>

lemma print_flags_low:
  assumes "\<forall>j. bit flags j \<longrightarrow> j < 28"
  shows "\<exists>str. print_flags flags = Inr str"
  unfolding print_flags_def using assms by (intro loop_ok) (auto simp: flagnames_upto_def)

lemma print_flags_ucast16: "\<exists>str. print_flags (ucast (sflags :: 16 word)) = Inr str"
  by (rule print_flags_low) (auto simp: bit_ucast_iff dest: bit_imp_le_length)

lemma print_flags_drop_bit:
  assumes "drop_bit 28 flags = 0"
  shows "\<exists>str. print_flags flags = Inr str"
proof (rule print_flags_low, intro allI impI)
  fix j
  assume b: "bit flags j"
  show "j < 28"
  proof (rule ccontr)
    assume "\<not> j < 28"
    then have "bit (drop_bit 28 flags) (j - 28)" using b by (simp add: bit_drop_bit_eq)
    then show False using assms by simp
  qed
qed

lemma FTL_new_query_returns:
  "\<not> thread_lock s \<Longrightarrow> \<exists>s'. FTL_new_query env flags name addr types qid s = Inr s'"
  by (simp add: FTL_new_query_def enable_thread_lock_def Let_def case_prod_beta split: option.splits)

lemma FTL_forwarded_returns:
  "\<not> thread_lock s \<Longrightarrow> \<exists>s'. FTL_forwarded env flags name addr qid s = Inr s'"
  by (simp add: FTL_forwarded_def enable_thread_lock_def Let_def case_prod_beta split: option.splits)

lemma FTL_dnssec_returns:
  "\<not> thread_lock s \<Longrightarrow> \<exists>s'. FTL_dnssec env stat qid s = Inr s'"
  by (simp add: FTL_dnssec_def enable_thread_lock_def Let_def split: option.splits)

lemma FTL_reply_returns:
  assumes "\<not> thread_lock s"
  shows "\<exists>s'. FTL_reply env sflags name addr t qid s = Inr s'"
proof -
  obtain str where "print_flags (ucast sflags) = Inr str" using print_flags_ucast16 by blast
  then show ?thesis
    using assms
    by (simp add: FTL_reply_def enable_thread_lock_def Let_def split: option.splits)
qed

lemma FTL_cache_returns:
  assumes "\<not> thread_lock s" "drop_bit 28 flags = 0"
  shows "\<exists>s'. FTL_cache env flags name addr arg t qid s = Inr s'"
proof -
  obtain str where "print_flags flags = Inr str" using print_flags_drop_bit [OF assms(2)] by blast
  then show ?thesis
    using assms(1)
    by (simp add: FTL_cache_def enable_thread_lock_def Let_def cache_requesttype_def
        split: option.splits)
qed

lemma handlers_blocked:
  assumes "thread_lock s"
  shows "FTL_new_query env flags name addr types qid s = Inl LockBlocked"
    "FTL_forwarded env flags name addr qid s = Inl LockBlocked"
    "FTL_reply env sflags name addr' t qid s = Inl LockBlocked"
    "FTL_cache env flags name addr' arg t qid s = Inl LockBlocked"
    "FTL_dnssec env stat qid s = Inl LockBlocked"
    "FTL_read_hosts filename addr_count s = Inl LockBlocked"
  using assms
  by (simp_all add: FTL_new_query_def FTL_forwarded_def FTL_reply_def FTL_cache_def
      FTL_dnssec_def FTL_read_hosts_def enable_thread_lock_def)

lemma handlers_release:
  "FTL_new_query env flags name addr types qid s = Inr s' \<Longrightarrow> \<not> thread_lock s'"
  "FTL_forwarded env flags name addr qid s = Inr s' \<Longrightarrow> \<not> thread_lock s'"
  "FTL_reply env sflags name addr' t qid s = Inr s' \<Longrightarrow> \<not> thread_lock s'"
  "FTL_cache env flags name addr' arg t qid s = Inr s' \<Longrightarrow> \<not> thread_lock s'"
  "FTL_dnssec env stat qid s = Inr s' \<Longrightarrow> \<not> thread_lock s'"
  "FTL_read_hosts filename addr_count s = Inr s' \<Longrightarrow> \<not> thread_lock s'"
  by (auto simp: FTL_new_query_def FTL_forwarded_def FTL_reply_def FTL_cache_def
      FTL_dnssec_def FTL_read_hosts_def enable_thread_lock_def Let_def case_prod_beta
      split: if_splits option.splits sum.splits)

section \<open>Further facts about the search and the reply counters\<close>

lemma find_query_SomeI:
  assumes "j < counters_queries s" "id_q (queries s j) = qid"
  shows "\<exists>i. find_query s qid = Some i \<and> i \<le> j"
proof (cases "find_query s qid")
  case None
  then have "\<not> id_q (queries s j) = qid"
    unfolding find_query_def using assms(1) by (intro first_index_NoneD [where j = j and i = 0 and n = "counters_queries s"]) simp_all
  then show ?thesis using assms by simp
next
  case (Some i)
  have "i \<le> j"
  proof (rule ccontr)
    assume "\<not> i \<le> j"
    then have "j < i" by simp
    then show False using find_query_SomeD [OF Some] assms(2) by simp
  qed
  then show ?thesis using Some by simp
qed


lemma save_reply_type_counters:
  "counters_reply (save_reply_type flags queryID s) k =
     counters_reply s k + (if k = reply_classification flags then 1 else 0)"
  by (cases k) (simp_all add: save_reply_type_def reply_classification_def Let_def)

lemma storeIP_counters_reply [simp]: "counters_reply (storeIP i ip s) k = counters_reply s k"
  by (cases k) simp_all

lemma counters_reply_queries_update [simp]:
  "counters_reply (s\<lparr>queries := q\<rparr>) k = counters_reply s k"
  "counters_reply (s\<lparr>thread_lock := b\<rparr>) k = counters_reply s k"
  by (cases k; simp)+


lemma findOverTimeID_keeps:
  "counters_overTime s \<le> counters_overTime (snd (findOverTimeID ts s))"
  "b < counters_overTime s \<Longrightarrow> overTime (snd (findOverTimeID ts s)) b = overTime s b"
  by (simp_all add: findOverTimeID_def Let_def append_overTime_eq)

lemma findOverTimeID_shape:
  "snd (findOverTimeID ts s) =
     s\<lparr>overTime := overTime (snd (findOverTimeID ts s)),
       counters_overTime := counters_overTime (snd (findOverTimeID ts s))\<rparr>"
  by (simp add: findOverTimeID_def Let_def append_overTime_eq)


section \<open>Every sequence of events runs to its end\<close>

lemma handle_returns:
  assumes "\<not> thread_lock s" "event_flags_low e"
  shows "\<exists>s'. handle env e s = Inr s'"
  using assms
  by (cases e)
    (simp_all add: FTL_new_query_returns FTL_forwarded_returns FTL_cache_returns
      FTL_reply_returns FTL_dnssec_returns)

lemma run_returns:
  "state_ok s \<Longrightarrow> list_all (\<lambda>(env, e). event_flags_low e) es \<Longrightarrow> \<exists>s'. run es s = Inr s'"
proof (induction es arbitrary: s)
  case Nil
  then show ?case by simp
next
  case (Cons a es)
  obtain env e where a: "a = (env, e)" by (cases a)
  have "\<not> thread_lock s" using Cons.prems(1) by (simp add: state_ok_def)
  moreover have "event_flags_low e" using Cons.prems(2) a by simp
  ultimately obtain s1 where s1: "handle env e s = Inr s1" using handle_returns by blast
  then have "state_ok s1" using Cons.prems(1) handle_ok by blast
  moreover have "list_all (\<lambda>(env, e). event_flags_low e) es" using Cons.prems(2) by simp
  ultimately obtain s' where "run es s1 = Inr s'" using Cons.IH by blast
  then show ?case using a s1 by simp
qed

lemma run_init_returns:
  "list_all (\<lambda>(env, e). event_flags_low e) es \<Longrightarrow> \<exists>s. run es FTL_init = Inr s"
  using run_returns [OF init_ok] .

section \<open>The claims\<close>

text \<open>
  C1: for every sequence of calls of \<open>FTL_new_query\<close>, \<open>FTL_forwarded\<close>, \<open>FTL_cache\<close>,
  \<open>FTL_reply\<close> and \<open>FTL_dnssec\<close> from the initial state, after any number \<open>k\<close> of them
  the unknown counter plus the number of records with \<open>complete\<close> set equals the number
  of query records created, which \<open>counters_queries\<close> counts.
\<close>

theorem unknown_plus_completed:
  "run (take k es) FTL_init = Inr s \<Longrightarrow>
     counters_unknown s + int (completed_count s) = int (counters_queries s)"
  using run_ok [OF init_ok, of "take k es" s] by (simp add: state_ok_def)

theorem unknown_plus_completed_witness:
  "\<exists>s. run (take 3
          [(example_env, QueryObserved F_IPV4 ''Example.com'' example_client ''query[A]'' 7),
           (example_env, QueryObserved F_IPV4 ''example.org'' example_client ''query[A]'' 8),
           (example_env, Forwarded F_IPV4 ''example.com'' example_upstream 7),
           (example_env, DnssecResult 1 8)]) FTL_init = Inr s \<and>
        counters_queries s = 2 \<and> counters_unknown s = 1 \<and>
        counters_unknown s + int (completed_count s) = int (counters_queries s)"
proof -
  have "\<exists>s. run (take 3
          [(example_env, QueryObserved F_IPV4 ''Example.com'' example_client ''query[A]'' 7),
           (example_env, QueryObserved F_IPV4 ''example.org'' example_client ''query[A]'' 8),
           (example_env, Forwarded F_IPV4 ''example.com'' example_upstream 7),
           (example_env, DnssecResult 1 8)]) FTL_init = Inr s \<and>
        counters_queries s = 2 \<and> counters_unknown s = 1"
    by (simp add: eval_defs)
  then show ?thesis
    using unknown_plus_completed by blast
qed


text \<open>
  C2: when \<open>FTL_forwarded\<close> matches a record whose status is \<open>QUERY_CACHE\<close>, the loop
  (state \<open>s1\<close>) takes one off the global cached counter and off the cached counter of the
  record's time bucket, adds one to the unknown counter, clears \<open>complete\<close> and sets the
  status to \<open>QUERY_FORWARDED\<close>; the same call then finalizes: the unknown counter goes down
  by one, the forwarded counter up by one, \<open>complete\<close> is set. After the call the cached
  counter is one lower than before, the forwarded counter one higher, \<open>complete\<close> is set.
\<close>

theorem forwarded_after_cache:
  assumes "\<not> thread_lock s" "find_query s qid = Some i" "status (queries s i) = QUERY_CACHE"
  shows
    "let s1 = forwarded_match i (s\<lparr>thread_lock := True\<rparr>);
         b = timeidx (queries s i);
         forward = strtolower (inet_ntop (if flag_set flags F_IPV4 then AF_INET else AF_INET6) addr);
         s3 = snd (findForwardID forward True s1);
         s4 = s3\<lparr>queries := (queries s3)(i := (queries s3 i)\<lparr>forwardID := fst (findForwardID forward True s1)\<rparr>)\<rparr>;
         s' = disable_thread_lock (forwarded_count i s4)
     in counters_cached s1 = counters_cached s - 1 \<and>
        oT_cached (overTime s1 b) = oT_cached (overTime s b) - 1 \<and>
        counters_unknown s1 = counters_unknown s + 1 \<and>
        \<not> complete (queries s1 i) \<and>
        status (queries s1 i) = QUERY_FORWARDED \<and>
        FTL_forwarded env flags name addr qid s = Inr s' \<and>
        counters_unknown s' = counters_unknown s1 - 1 \<and>
        counters_forwardedqueries s' = counters_forwardedqueries s + 1 \<and>
        complete (queries s' i) \<and>
        status (queries s' i) = QUERY_FORWARDED \<and>
        counters_cached s' = counters_cached s - 1 \<and>
        oT_cached (overTime s' b) = oT_cached (overTime s b) - 1"
  using assms
  by (simp add: Let_def FTL_forwarded_def enable_thread_lock_def case_prod_beta
      forwarded_match_def forwarded_count_def disable_thread_lock_def)

theorem forwarded_after_cache_witness:
  "let s = projr (run
             [(example_env, QueryObserved F_IPV4 ''example.com'' example_client ''query[A]'' 2),
              (example_env, CacheAnswer F_FORWARD ''example.com'' None None 60 2)] FTL_init);
       s' = projr (FTL_forwarded example_env F_IPV4 ''example.com'' example_upstream 2 s)
   in \<not> thread_lock s \<and> find_query s 2 = Some 0 \<and> status (queries s 0) = QUERY_CACHE \<and>
      complete (queries s 0) \<and> counters_cached s = 1 \<and> counters_unknown s = 0 \<and>
      counters_forwardedqueries s = 0 \<and>
      (\<exists>x. FTL_forwarded example_env F_IPV4 ''example.com'' example_upstream 2 s = Inr x) \<and>
      counters_cached s' = 0 \<and> counters_unknown s' = 0 \<and> counters_forwardedqueries s' = 1 \<and>
      status (queries s' 0) = QUERY_FORWARDED \<and> complete (queries s' 0)"
proof -
  let ?s = "projr (run
             [(example_env, QueryObserved F_IPV4 ''example.com'' example_client ''query[A]'' 2),
              (example_env, CacheAnswer F_FORWARD ''example.com'' None None 60 2)] FTL_init)"
  have pre: "\<not> thread_lock ?s" "find_query ?s 2 = Some 0" "status (queries ?s 0) = QUERY_CACHE"
    by (simp_all add: eval_defs)
  have vals: "complete (queries ?s 0)" "counters_cached ?s = 1" "counters_unknown ?s = 0"
    "counters_forwardedqueries ?s = 0"
    by (simp_all add: eval_defs)
  show ?thesis
    using forwarded_after_cache [OF pre, where env = example_env and flags = F_IPV4
        and name = "''example.com''" and addr = example_upstream]
      pre vals
    by (simp add: Let_def)
qed


text \<open>
  C3, as the claim states it, fails: two records share the transient id 7, and
  \<open>FTL_forwarded\<close> changes the record in slot 0 and leaves the record in slot 1, the
  most recent one, as it was.
\<close>

theorem forwarded_highest_slot_counterexample:
  "let s = projr (run
             [(example_env, QueryObserved F_IPV4 ''example.com'' example_client ''query[A]'' 7),
              (example_env, QueryObserved F_IPV4 ''example.org'' example_client ''query[A]'' 7)]
             FTL_init);
       s' = projr (FTL_forwarded example_env F_IPV4 ''example.org'' example_upstream 7 s)
   in counters_queries s = 2 \<and> id_q (queries s 0) = 7 \<and> id_q (queries s 1) = 7 \<and>
      (\<exists>x. FTL_forwarded example_env F_IPV4 ''example.org'' example_upstream 7 s = Inr x) \<and>
      status (queries s 0) = QUERY_UNKNOWN \<and> status (queries s' 0) = QUERY_FORWARDED \<and>
      complete (queries s' 0) \<and> forwardID (queries s' 0) = Some 0 \<and>
      status (queries s 1) = QUERY_UNKNOWN \<and> status (queries s' 1) = QUERY_UNKNOWN \<and>
      \<not> complete (queries s' 1) \<and> forwardID (queries s' 1) = None"
  by (simp add: eval_defs)

text \<open>
  C3, amended: when several records share the transient id, \<open>FTL_forwarded\<close> updates the
  one with the lowest slot index (the first match of the scan from slot 0) and no other
  record; when no record has the id, the call leaves the whole state as it was.
\<close>

theorem forwarded_first_match:
  assumes "\<not> thread_lock s"
  shows
    "(\<forall>j. j < counters_queries s \<and> id_q (queries s j) = qid \<longrightarrow>
        (\<exists>i s'. i \<le> j \<and> id_q (queries s i) = qid \<and> (\<forall>k<i. id_q (queries s k) \<noteq> qid) \<and>
           FTL_forwarded env flags name addr qid s = Inr s' \<and>
           status (queries s' i) = QUERY_FORWARDED \<and>
           (\<forall>k. k \<noteq> i \<longrightarrow> queries s' k = queries s k))) \<and>
     ((\<forall>j<counters_queries s. id_q (queries s j) \<noteq> qid) \<longrightarrow>
        FTL_forwarded env flags name addr qid s = Inr s)"
proof (intro conjI allI impI)
  fix j
  assume "j < counters_queries s \<and> id_q (queries s j) = qid"
  then obtain i where i: "find_query s qid = Some i" "i \<le> j"
    using find_query_SomeI by blast
  have low: "id_q (queries s i) = qid \<and> (\<forall>k<i. id_q (queries s k) \<noteq> qid)"
    using find_query_SomeD [OF i(1)] by simp
  have "\<exists>s'. FTL_forwarded env flags name addr qid s = Inr s' \<and>
           status (queries s' i) = QUERY_FORWARDED \<and>
           (\<forall>k. k \<noteq> i \<longrightarrow> queries s' k = queries s k)"
    using assms i(1)
    by (simp add: Let_def FTL_forwarded_def enable_thread_lock_def case_prod_beta
        forwarded_match_def forwarded_count_def disable_thread_lock_def)
  then show "\<exists>i s'. i \<le> j \<and> id_q (queries s i) = qid \<and> (\<forall>k<i. id_q (queries s k) \<noteq> qid) \<and>
           FTL_forwarded env flags name addr qid s = Inr s' \<and>
           status (queries s' i) = QUERY_FORWARDED \<and>
           (\<forall>k. k \<noteq> i \<longrightarrow> queries s' k = queries s k)"
    using i(2) low by blast
next
  assume "\<forall>j<counters_queries s. id_q (queries s j) \<noteq> qid"
  then have "find_query s qid = None" by (rule find_query_NoneI)
  then show "FTL_forwarded env flags name addr qid s = Inr s"
    using assms
    by (simp add: Let_def FTL_forwarded_def enable_thread_lock_def disable_thread_lock_def)
qed

theorem forwarded_first_match_witness:
  "let s = projr (run
             [(example_env, QueryObserved F_IPV4 ''example.com'' example_client ''query[A]'' 7),
              (example_env, QueryObserved F_IPV4 ''example.org'' example_client ''query[A]'' 7)]
             FTL_init)
   in \<not> thread_lock s \<and> counters_queries s = 2 \<and>
      id_q (queries s 0) = 7 \<and> id_q (queries s 1) = 7 \<and>
      (\<exists>i s'. i \<le> 1 \<and> id_q (queries s i) = 7 \<and> (\<forall>k<i. id_q (queries s k) \<noteq> 7) \<and>
         FTL_forwarded example_env F_IPV4 ''example.org'' example_upstream 7 s = Inr s' \<and>
         status (queries s' i) = QUERY_FORWARDED \<and>
         (\<forall>k. k \<noteq> i \<longrightarrow> queries s' k = queries s k)) \<and>
      FTL_forwarded example_env F_IPV4 ''example.org'' example_upstream 9 s = Inr s"
proof -
  let ?s = "projr (run
             [(example_env, QueryObserved F_IPV4 ''example.com'' example_client ''query[A]'' 7),
              (example_env, QueryObserved F_IPV4 ''example.org'' example_client ''query[A]'' 7)]
             FTL_init)"
  have pre: "\<not> thread_lock ?s"
    by (simp add: eval_defs)
  have vals: "counters_queries ?s = 2" "id_q (queries ?s 0) = 7" "id_q (queries ?s 1) = 7"
    by (simp_all add: eval_defs)
  have match: "1 < counters_queries ?s \<and> id_q (queries ?s 1) = 7"
    by (simp add: eval_defs)
  have none: "\<forall>j<counters_queries ?s. id_q (queries ?s j) \<noteq> 9"
    by (simp add: eval_defs less_Suc_eq numeral_2_eq_2)
  note inst7 = forwarded_first_match [OF pre, where qid = 7 and env = example_env
      and flags = F_IPV4 and name = "''example.org''" and addr = example_upstream]
  note inst9 = forwarded_first_match [OF pre, where qid = 9 and env = example_env
      and flags = F_IPV4 and name = "''example.org''" and addr = example_upstream]
  note a = inst7 [THEN conjunct1, THEN spec, of 1, THEN mp, OF match]
  note b = inst9 [THEN conjunct2, THEN mp, OF none]
  show ?thesis
    unfolding Let_def by (intro conjI pre vals a b)
qed


text \<open>
  C4: with the analysis of AAAA queries switched off, a call of \<open>FTL_new_query\<close> with
  the label \<open>query[AAAA]\<close> should create no record and count nothing. The source
  compares the label with \<open>'' query[AAAA]''\<close>, with a leading blank (line 30), while the
  ladder at line 83 compares it with \<open>''query[AAAA]''\<close>: the label without the blank is
  not filtered, the record is created and the counters are incremented.
\<close>

theorem new_query_AAAA_not_filtered:
  "let s' = projr (FTL_new_query example_env F_IPV4 ''example.com'' example_client
                     ''query[AAAA]'' 7 FTL_init);
       t' = projr (FTL_new_query example_env F_IPV4 ''example.com'' example_client
                     '' query[AAAA]'' 7 FTL_init)
   in \<not> analyze_AAAA example_env \<and> counters_queries FTL_init = 0 \<and>
      (\<exists>x. FTL_new_query example_env F_IPV4 ''example.com'' example_client
              ''query[AAAA]'' 7 FTL_init = Inr x) \<and>
      counters_queries s' = 1 \<and> counters_unknown s' = 1 \<and>
      counters_querytype s' TYPE_AAAA = 1 \<and> type_q (queries s' 0) = TYPE_AAAA \<and>
      id_q (queries s' 0) = 7 \<and> oT_total (overTime s' 0) = 1 \<and>
      oT_querytypedata (overTime s' 0) TYPE_AAAA = 1 \<and> oT_clientdata (overTime s' 0) 0 = 1 \<and>
      counters_queries t' = 0 \<and> counters_unknown t' = 0 \<and> counters_querytype t' TYPE_AAAA = 0 \<and>
      counters_overTime t' = 0"
  by (simp add: eval_defs)


text \<open>
  C5, as the claim states it, fails for \<open>FTL_reply\<close>: the query with id 7 is complete
  after it was forwarded, and a reply from upstream for its domain adds one to the
  counter of IP replies.
\<close>

theorem replay_reply_counter_counterexample:
  "let s = projr (run
             [(example_env, QueryObserved F_IPV4 ''example.com'' example_client ''query[A]'' 7),
              (example_env, Forwarded F_IPV4 ''example.com'' example_upstream 7)] FTL_init);
       s' = projr (FTL_reply example_env (ucast (F_FORWARD OR F_IPV4)) ''example.com''
                     (Some \<lparr>as_inet = ''93.184.216.34'', as_inet6 = ''::ffff:5db8:d822''\<rparr>) 300 7 s)
   in find_query s 7 = Some 0 \<and> complete (queries s 0) \<and>
      (\<exists>x. FTL_reply example_env (ucast (F_FORWARD OR F_IPV4)) ''example.com''
              (Some \<lparr>as_inet = ''93.184.216.34'', as_inet6 = ''::ffff:5db8:d822''\<rparr>) 300 7 s
            = Inr x) \<and>
      counters_reply_IP s = 0 \<and> counters_reply_IP s' = 1 \<and> complete (queries s' 0)"
  by (simp add: eval_defs)

text \<open>
  C5, amended: for a record that is already complete, another call of \<open>FTL_cache\<close>
  leaves the counters unknown, cached, blocked, forwardedqueries, wildcardblocked, the
  counters of the reply kinds and every time bucket unchanged, for every flags, name and
  TTL. Another call of \<open>FTL_reply\<close> leaves unknown, cached, blocked, forwardedqueries,
  wildcardblocked and every time bucket unchanged; the counters of the reply kinds are
  unchanged too, except in the branch of a reply from upstream (\<open>F_CONFIG\<close> clear,
  \<open>F_FORWARD\<close> set) whose name is the record's domain, where the counter of the reply's
  kind goes up by one.
\<close>

theorem replay_on_complete:
  assumes "find_query s qid = Some i" "complete (queries s i)"
  shows
    "(FTL_cache env flags name addr arg t qid s = Inr s' \<longrightarrow>
        counters_unknown s' = counters_unknown s \<and> counters_cached s' = counters_cached s \<and>
        counters_blocked s' = counters_blocked s \<and>
        counters_forwardedqueries s' = counters_forwardedqueries s \<and>
        counters_wildcardblocked s' = counters_wildcardblocked s \<and>
        (\<forall>k. counters_reply s' k = counters_reply s k) \<and>
        overTime s' = overTime s \<and> counters_overTime s' = counters_overTime s) \<and>
     (FTL_reply env sflags name addr t qid s = Inr s'' \<longrightarrow>
        counters_unknown s'' = counters_unknown s \<and> counters_cached s'' = counters_cached s \<and>
        counters_blocked s'' = counters_blocked s \<and>
        counters_forwardedqueries s'' = counters_forwardedqueries s \<and>
        counters_wildcardblocked s'' = counters_wildcardblocked s \<and>
        (\<forall>k. counters_reply s'' k = counters_reply s k +
           (if \<not> flag_set (ucast sflags) F_CONFIG \<and> flag_set (ucast sflags) F_FORWARD \<and>
               domain (domains s (domainID (queries s i))) = name \<and>
               k = reply_classification (ucast sflags)
            then 1 else 0)) \<and>
        overTime s'' = overTime s \<and> counters_overTime s'' = counters_overTime s)"
proof (rule conjI; rule impI)
  assume eq: "FTL_cache env flags name addr arg t qid s = Inr s'"
  show "counters_unknown s' = counters_unknown s \<and> counters_cached s' = counters_cached s \<and>
        counters_blocked s' = counters_blocked s \<and>
        counters_forwardedqueries s' = counters_forwardedqueries s \<and>
        counters_wildcardblocked s' = counters_wildcardblocked s \<and>
        (\<forall>k. counters_reply s' k = counters_reply s k) \<and>
        overTime s' = overTime s \<and> counters_overTime s' = counters_overTime s"
    using eq assms
    by (auto simp: FTL_cache_def enable_thread_lock_def disable_thread_lock_def Let_def
        split: if_splits sum.splits)
next
  assume eq: "FTL_reply env sflags name addr t qid s = Inr s''"
  show "counters_unknown s'' = counters_unknown s \<and> counters_cached s'' = counters_cached s \<and>
        counters_blocked s'' = counters_blocked s \<and>
        counters_forwardedqueries s'' = counters_forwardedqueries s \<and>
        counters_wildcardblocked s'' = counters_wildcardblocked s \<and>
        (\<forall>k. counters_reply s'' k = counters_reply s k +
           (if \<not> flag_set (ucast sflags) F_CONFIG \<and> flag_set (ucast sflags) F_FORWARD \<and>
               domain (domains s (domainID (queries s i))) = name \<and>
               k = reply_classification (ucast sflags)
            then 1 else 0)) \<and>
        overTime s'' = overTime s \<and> counters_overTime s'' = counters_overTime s"
    using eq assms
    by (auto simp: FTL_reply_def enable_thread_lock_def disable_thread_lock_def Let_def
        reply_forward_save_def save_reply_type_counters
        split: if_splits sum.splits)
qed

theorem replay_on_complete_witness:
  "let s = projr (run
             [(example_env, QueryObserved F_IPV4 ''example.com'' example_client ''query[A]'' 7),
              (example_env, Forwarded F_IPV4 ''example.com'' example_upstream 7)] FTL_init);
       s' = projr (FTL_cache example_env F_FORWARD ''example.com'' None None 60 7 s);
       s'' = projr (FTL_reply example_env (ucast F_CONFIG) ''example.com'' None 60 7 s)
   in find_query s 7 = Some 0 \<and> complete (queries s 0) \<and>
      FTL_cache example_env F_FORWARD ''example.com'' None None 60 7 s = Inr s' \<and>
      FTL_reply example_env (ucast F_CONFIG) ''example.com'' None 60 7 s = Inr s'' \<and>
      counters_unknown s' = counters_unknown s \<and> counters_cached s' = counters_cached s \<and>
      counters_unknown s'' = counters_unknown s \<and> counters_cached s'' = counters_cached s \<and>
      overTime s' = overTime s \<and> overTime s'' = overTime s"
proof -
  let ?s = "projr (run
             [(example_env, QueryObserved F_IPV4 ''example.com'' example_client ''query[A]'' 7),
              (example_env, Forwarded F_IPV4 ''example.com'' example_upstream 7)] FTL_init)"
  let ?c = "FTL_cache example_env F_FORWARD ''example.com'' None None 60 7 ?s"
  let ?r = "FTL_reply example_env (ucast F_CONFIG :: 16 word) ''example.com'' None 60 7 ?s"
  have pre: "find_query ?s 7 = Some 0" "complete (queries ?s 0)"
    by (simp_all add: eval_defs)
  have free: "\<not> thread_lock ?s"
    by (simp add: eval_defs)
  have low: "drop_bit 28 F_FORWARD = 0"
    by (simp add: F_FORWARD_def drop_bit_eq_div)
  have c: "?c = Inr (projr ?c)"
    using FTL_cache_returns [OF free low, of example_env "''example.com''" None None 60 7]
    by auto
  have r: "?r = Inr (projr ?r)"
    using FTL_reply_returns [OF free, of example_env "ucast F_CONFIG :: 16 word" "''example.com''" None 60 7]
    by auto
  note inst = replay_on_complete [OF pre, where env = example_env and flags = F_FORWARD
      and name = "''example.com''" and addr = None and arg = None and t = 60
      and sflags = "ucast F_CONFIG :: 16 word" and s' = "projr ?c" and s'' = "projr ?r"]
  note ic = inst [THEN conjunct1, THEN mp, OF c]
  note ir = inst [THEN conjunct2, THEN mp, OF r]
  show ?thesis
    unfolding Let_def using pre c r ic ir by blast
qed


text \<open>
  C6, as the claim states it, fails twice. The query with id 7 was forwarded to 8.8.8.8
  and is complete; another call of \<open>FTL_forwarded\<close>, to 1.1.1.1, sets the status and
  returns at line 214 before the destination is looked up, so the record keeps the
  reference to the first destination and no second destination is recorded. The query
  with id 2 was answered from the cache and is complete; \<open>FTL_forwarded\<close> takes it off
  the cached counter and counts it as forwarded.
\<close>

theorem forwarded_destination_counterexample:
  "let s = projr (run
             [(example_env, QueryObserved F_IPV4 ''example.com'' example_client ''query[A]'' 7),
              (example_env, Forwarded F_IPV4 ''example.com'' example_upstream 7)] FTL_init);
       s' = projr (FTL_forwarded example_env F_IPV4 ''example.com''
                     \<lparr>as_inet = ''1.1.1.1'', as_inet6 = ''::ffff:101:101''\<rparr> 7 s);
       u = projr (run
             [(example_env, QueryObserved F_IPV4 ''example.com'' example_client ''query[A]'' 2),
              (example_env, CacheAnswer F_FORWARD ''example.com'' None None 60 2)] FTL_init);
       u' = projr (FTL_forwarded example_env F_IPV4 ''example.com'' example_upstream 2 u)
   in find_query s 7 = Some 0 \<and> complete (queries s 0) \<and>
      forwardID (queries s 0) = Some 0 \<and> forwarded s 0 = ''8.8.8.8'' \<and>
      counters_forwarded s = 1 \<and>
      (\<exists>x. FTL_forwarded example_env F_IPV4 ''example.com''
              \<lparr>as_inet = ''1.1.1.1'', as_inet6 = ''::ffff:101:101''\<rparr> 7 s = Inr x) \<and>
      status (queries s' 0) = QUERY_FORWARDED \<and> forwardID (queries s' 0) = Some 0 \<and>
      forwarded s' 0 = ''8.8.8.8'' \<and> counters_forwarded s' = 1 \<and>
      find_query u 2 = Some 0 \<and> complete (queries u 0) \<and>
      counters_cached u = 1 \<and> counters_forwardedqueries u = 0 \<and>
      (\<exists>x. FTL_forwarded example_env F_IPV4 ''example.com'' example_upstream 2 u = Inr x) \<and>
      counters_cached u' = 0 \<and> counters_forwardedqueries u' = 1"
  by (simp add: eval_defs)

text \<open>
  C6, amended: when \<open>FTL_forwarded\<close> matches a record that is already complete and
  whose status is not \<open>QUERY_CACHE\<close>, it sets the record's status to \<open>QUERY_FORWARDED\<close>
  and changes nothing else: neither the reference to the forward destination nor any
  counter nor any time bucket. (A complete record whose status is \<open>QUERY_CACHE\<close> is the
  case of C2.)
\<close>

theorem forwarded_not_counted_again:
  assumes "\<not> thread_lock s" "find_query s qid = Some i" "complete (queries s i)"
    "status (queries s i) \<noteq> QUERY_CACHE"
  shows "FTL_forwarded env flags name addr qid s =
           Inr (s\<lparr>queries := (queries s)(i := (queries s i)\<lparr>status := QUERY_FORWARDED\<rparr>)\<rparr>)"
  using assms
  by (simp add: Let_def FTL_forwarded_def enable_thread_lock_def case_prod_beta
      forwarded_match_def forwarded_count_def disable_thread_lock_def)

theorem forwarded_not_counted_again_witness:
  "let s = projr (run
             [(example_env, QueryObserved F_IPV4 ''example.com'' example_client ''query[A]'' 7),
              (example_env, Forwarded F_IPV4 ''example.com'' example_upstream 7)] FTL_init)
   in \<not> thread_lock s \<and> find_query s 7 = Some 0 \<and> complete (queries s 0) \<and>
      status (queries s 0) \<noteq> QUERY_CACHE \<and>
      FTL_forwarded example_env F_IPV4 ''example.com''
         \<lparr>as_inet = ''1.1.1.1'', as_inet6 = ''::ffff:101:101''\<rparr> 7 s =
        Inr (s\<lparr>queries := (queries s)(0 := (queries s 0)\<lparr>status := QUERY_FORWARDED\<rparr>)\<rparr>)"
proof -
  let ?s = "projr (run
             [(example_env, QueryObserved F_IPV4 ''example.com'' example_client ''query[A]'' 7),
              (example_env, Forwarded F_IPV4 ''example.com'' example_upstream 7)] FTL_init)"
  have pre: "\<not> thread_lock ?s" "find_query ?s 7 = Some 0" "complete (queries ?s 0)"
    "status (queries ?s 0) \<noteq> QUERY_CACHE"
    by (simp_all add: eval_defs)
  note inst = forwarded_not_counted_again [OF pre, where env = example_env and flags = F_IPV4
      and name = "''example.com''"
      and addr = "\<lparr>as_inet = ''1.1.1.1'', as_inet6 = ''::ffff:101:101''\<rparr>"]
  show ?thesis
    unfolding Let_def by (intro conjI pre inst)
qed


text \<open>
  C7: \<open>save_reply_type\<close> depends on the flags only through the classification of
  section 4.4 (negative and NXDOMAIN: NXDOMAIN; negative otherwise: NODATA; else alias:
  CNAME; else IP) and on the query only through its type slot (A is slot 0, AAAA slot 1)
  and its domain: it writes the classification to that slot of the domain and adds one to
  the global counter of that reply kind and to no other. As a function, it gives the same
  result for the same inputs.
\<close>

theorem save_reply_type_classifies:
  "save_reply_type flags queryID s =
     s\<lparr>domains := (domains s)(domainID (queries s queryID) :=
           (domains s (domainID (queries s queryID)))
             \<lparr>reply := (reply (domains s (domainID (queries s queryID))))
                (type_slot (type_q (queries s queryID)) := reply_classification flags)\<rparr>),
       counters_reply_NXDOMAIN :=
         counters_reply_NXDOMAIN s + (if reply_classification flags = REPLY_NXDOMAIN then 1 else 0),
       counters_reply_NODATA :=
         counters_reply_NODATA s + (if reply_classification flags = REPLY_NODATA then 1 else 0),
       counters_reply_CNAME :=
         counters_reply_CNAME s + (if reply_classification flags = REPLY_CNAME then 1 else 0),
       counters_reply_IP :=
         counters_reply_IP s + (if reply_classification flags = REPLY_IP then 1 else 0)\<rparr>"
  by (cases "type_q (queries s queryID)")
    (simp_all add: save_reply_type_def reply_classification_def Let_def)

theorem save_reply_type_classifies_witness:
  "let s' = save_reply_type (F_NEG OR F_NXDOMAIN) 0 (FTL_init\<lparr>queries := (queries FTL_init)
               (0 := zero_query\<lparr>type_q := TYPE_AAAA, domainID := 3\<rparr>)\<rparr>)
   in reply (domains s' 3) 1 = REPLY_NXDOMAIN \<and> reply (domains s' 3) 0 = REPLY_UNKNOWN \<and>
      counters_reply_NXDOMAIN s' = 1 \<and> counters_reply_NODATA s' = 0 \<and>
      counters_reply_CNAME s' = 0 \<and> counters_reply_IP s' = 0"
  by (subst save_reply_type_classifies)
    (simp add: reply_classification_def flag_set_def F_NEG_def F_NXDOMAIN_def F_CNAME_def
      FTL_init_def zero_query_def new_domain_def)


text \<open>
  C8: every handler should take the lock before it touches the shared state and release
  it on every way out. \<open>FTL_dnsmasq_reload\<close> never takes it: with the lock held by
  another thread it still sets \<open>counters_gravity\<close> to 0 and returns, where
  \<open>FTL_read_hosts\<close>, which writes the same counter, and the other handlers wait for the
  lock. (The lemmas \<open>handlers_blocked\<close> and \<open>handlers_release\<close> above state the
  discipline of the six other handlers.)
\<close>

theorem reload_ignores_lock:
  "let s = projr (FTL_read_hosts (Some ''/etc/pihole/gravity.list'') 5 FTL_init)
             \<lparr>thread_lock := True\<rparr>;
       s' = projr (FTL_dnsmasq_reload s)
   in thread_lock s \<and> counters_gravity s = 5 \<and>
      (\<exists>x. FTL_dnsmasq_reload s = Inr x) \<and> counters_gravity s' = 0 \<and> thread_lock s' \<and>
      FTL_read_hosts (Some ''/etc/pihole/gravity.list'') 3 s = Inl LockBlocked \<and>
      FTL_dnssec example_env 1 7 s = Inl LockBlocked"
  by (simp add: eval_defs)


text \<open>
  C9, as the claim states it, fails for \<open>FTL_new_query\<close>: the time bucket is looked up
  (line 40) before the domain is compared with the sentinel (line 46), and the lookup
  appends the bucket of the current time when the table does not reach it yet. Here
  the table of buckets is empty before the call and has one bucket after it.
\<close>

theorem sentinel_new_query_counterexample:
  "let s' = projr (FTL_new_query example_env F_IPV4 ''pi.hole'' example_client ''query[A]'' 7
                     FTL_init)
   in strtolower ''pi.hole'' = ''pi.hole'' \<and>
      (\<exists>x. FTL_new_query example_env F_IPV4 ''pi.hole'' example_client ''query[A]'' 7 FTL_init
            = Inr x) \<and>
      counters_overTime FTL_init = 0 \<and> counters_overTime s' = 1 \<and>
      oT_timestamp (overTime FTL_init 0) = 0 \<and> oT_timestamp (overTime s' 0) = 600 \<and>
      counters_queries s' = 0"
  by (simp add: eval_defs)

text \<open>
  C9, amended: when the lower-cased name is \<open>pi.hole\<close>, \<open>FTL_cache\<close> returns with the
  whole state as it was, and \<open>FTL_new_query\<close> returns without creating a record and
  without changing any counter or table other than the table of time buckets and its
  size, which may grow by new buckets (the existing buckets keep their contents); in
  particular the queries counter is unchanged.
\<close>

theorem sentinel_hostname_skipped:
  assumes "\<not> thread_lock s" "strtolower name = ''pi.hole''"
  shows
    "FTL_cache env flags name addr' arg t qid s = Inr s \<and>
     (\<exists>s'. FTL_new_query env flags name addr types qid s = Inr s' \<and>
        s' = s\<lparr>overTime := overTime s', counters_overTime := counters_overTime s'\<rparr> \<and>
        counters_queries s' = counters_queries s \<and> queries s' = queries s \<and>
        counters_overTime s \<le> counters_overTime s' \<and>
        (\<forall>b<counters_overTime s. overTime s' b = overTime s b))"
proof (rule conjI)
  show "FTL_cache env flags name addr' arg t qid s = Inr s"
    using assms by (simp add: FTL_cache_def enable_thread_lock_def disable_thread_lock_def Let_def)
next
  let ?s1 = "s\<lparr>thread_lock := True\<rparr>"
  let ?s2 = "snd (findOverTimeID (overTimetimestamp env) ?s1)"
  show "\<exists>s'. FTL_new_query env flags name addr types qid s = Inr s' \<and>
        s' = s\<lparr>overTime := overTime s', counters_overTime := counters_overTime s'\<rparr> \<and>
        counters_queries s' = counters_queries s \<and> queries s' = queries s \<and>
        counters_overTime s \<le> counters_overTime s' \<and>
        (\<forall>b<counters_overTime s. overTime s' b = overTime s b)"
  proof (cases "\<not> analyze_AAAA env \<and> types = '' query[AAAA]''")
    case True
    then have "FTL_new_query env flags name addr types qid s = Inr s"
      using assms by (simp add: FTL_new_query_def enable_thread_lock_def disable_thread_lock_def)
    then show ?thesis by simp
  next
    case False
    then have eq: "FTL_new_query env flags name addr types qid s = Inr (disable_thread_lock ?s2)"
      using assms by (auto simp add: FTL_new_query_def enable_thread_lock_def Let_def case_prod_beta)
    have shape: "disable_thread_lock ?s2 =
        s\<lparr>overTime := overTime ?s2, counters_overTime := counters_overTime ?s2\<rparr>"
      using assms(1) by (subst findOverTimeID_shape) (simp add: disable_thread_lock_def)
    have keep: "counters_overTime s \<le> counters_overTime ?s2"
      "\<forall>b<counters_overTime s. overTime ?s2 b = overTime s b"
      using findOverTimeID_keeps [where s = ?s1 and ts = "overTimetimestamp env"] by simp_all
    show ?thesis
      unfolding eq using shape keep by (simp add: disable_thread_lock_def)
  qed
qed

theorem sentinel_hostname_skipped_witness:
  "\<not> thread_lock FTL_init \<and> strtolower ''Pi.Hole'' = ''pi.hole'' \<and>
   FTL_cache example_env F_FORWARD ''Pi.Hole'' None None 60 7 FTL_init = Inr FTL_init \<and>
   (\<exists>s'. FTL_new_query example_env F_IPV4 ''Pi.Hole'' example_client ''query[A]'' 7 FTL_init
           = Inr s' \<and>
      s' = FTL_init\<lparr>overTime := overTime s', counters_overTime := counters_overTime s'\<rparr> \<and>
      counters_queries s' = counters_queries FTL_init \<and> queries s' = queries FTL_init \<and>
      counters_overTime FTL_init \<le> counters_overTime s' \<and>
      (\<forall>b<counters_overTime FTL_init. overTime s' b = overTime FTL_init b))"
proof -
  have pre: "\<not> thread_lock FTL_init" "strtolower ''Pi.Hole'' = ''pi.hole''"
    by (simp_all add: FTL_init_def strtolower_def tolower_def)
  note inst = sentinel_hostname_skipped [OF pre, where env = example_env]
  show ?thesis
    by (intro conjI pre inst [THEN conjunct1] inst [THEN conjunct2])
qed


text \<open>
  C10: a flags word with a bit set at position 28, 29, 30 or 31 makes \<open>print_flags\<close>
  read \<open>flagnames\<close>, which has 28 rows, out of bounds, since the loop runs over all 32
  bits; when every set bit is below position 28, every access is in bounds and the
  routine returns the string for the log.
\<close>

theorem print_flags_bounds:
  "((\<exists>j. 28 \<le> j \<and> j < 32 \<and> bit flags j) \<longrightarrow> print_flags flags = Inl FlagnamesOutOfBounds) \<and>
   ((\<forall>j. 28 \<le> j \<and> j < 32 \<longrightarrow> \<not> bit flags j) \<longrightarrow> (\<exists>s. print_flags flags = Inr s))"
proof (intro conjI impI)
  assume "\<exists>j. 28 \<le> j \<and> j < 32 \<and> bit flags j"
  then show "print_flags flags = Inl FlagnamesOutOfBounds"
    unfolding print_flags_def by (intro loop_oob) (auto simp: flagnames_upto_def)
next
  assume "\<forall>j. 28 \<le> j \<and> j < 32 \<longrightarrow> \<not> bit flags j"
  then have "\<forall>j. 0 \<le> j \<and> j < 32 \<longrightarrow> bit flags j \<longrightarrow> j < 28"
    by (meson not_le)
  then show "\<exists>s. print_flags flags = Inr s"
    unfolding print_flags_def by (intro loop_ok) (auto simp: flagnames_upto_def)
qed

theorem print_flags_bounds_witness:
  "print_flags (push_bit 28 1) = Inl FlagnamesOutOfBounds \<and>
   (\<exists>s. print_flags (F_NEG OR F_NXDOMAIN) = Inr s)"
proof -
  have high: "\<exists>j. 28 \<le> j \<and> j < 32 \<and> bit (push_bit 28 1 :: flags_t) j"
    by (rule exI [of _ 28]) (simp add: bit_push_bit_iff)
  have low: "\<forall>j. 28 \<le> j \<and> j < 32 \<longrightarrow> \<not> bit (F_NEG OR F_NXDOMAIN) j"
    unfolding F_NEG_def F_NXDOMAIN_def
    by (simp only: bit_or_iff bit_push_bit_iff bit_1_iff) auto
  show ?thesis
    using print_flags_bounds [of "push_bit 28 1"] print_flags_bounds [of "F_NEG OR F_NXDOMAIN"]
      high low by blast
qed


end
